theory Spec2Isabelle
  imports Main
begin

section \<open>The node graph of the editor (LexicalNode.js, ElementNode)\<close>

text \<open>
  A shallow embedding of the key-addressed node graph: the base node class
  (\<^verbatim>\<open>packages/lexical/src/LexicalNode.js\<close>) and the element class that owns a
  doubly linked child list (\<^verbatim>\<open>ElementNode\<close>).

  Conventions of the embedding.
  \<^item> A node object is a record; the fields of \<^verbatim>\<open>ElementNode\<close> are part of the same
    record and are only meaningful when the class is an element class.
  \<^item> The node map of the active editor state is a map from keys to records. The field
    \<^verbatim>\<open>__key\<close> of a node is the key under which the node is stored, so the record has no
    key field. A JavaScript reference to a node is modelled by the node's key: every
    method of the source resolves \<^verbatim>\<open>this\<close> through \<^verbatim>\<open>getLatest\<close> or reads \<^verbatim>\<open>__key\<close>,
    which is stable between copies. A write through a writable reference is a write to
    the map entry of that key.
  \<^item> JavaScript numbers that hold sizes, indices and counts are integers (\<open>int\<close>).
  \<^item> \<^verbatim>\<open>invariant(false, msg)\<close> and the read-only check throw; a throw is a value that
    carries the state reached so far, because the mutations made before the throw stay
    in the pending node map.
  \<^item> A \<^verbatim>\<open>while\<close> loop that follows \<^verbatim>\<open>__next\<close> or \<^verbatim>\<open>__parent\<close> links need not
    terminate on a cyclic graph: such loops are partial functions into \<open>option\<close>, and
    \<open>None\<close> means that the loop never returns.
\<close>

subsection \<open>Data model\<close>

type_synonym NodeKey = string

datatype NodeClass = ElementClass | RootClass | TextClass | LineBreakClass | DecoratorClass

datatype Direction = Ltr | Rtl

record LexicalNode =
  n_class :: NodeClass
  n_parent :: "NodeKey option"
  n_next :: "NodeKey option"
  n_prev :: "NodeKey option"
  n_format :: int
  n_indent :: int
  n_dir :: "Direction option"
  n_first :: "NodeKey option"
  n_last :: "NodeKey option"
  n_size :: int
  n_canBeEmpty :: bool
  n_textSize :: int

text \<open>
  \<open>n_canBeEmpty\<close> is the value of the overridable method \<^verbatim>\<open>canBeEmpty()\<close> of the node's
  class (\<^verbatim>\<open>true\<close> in \<^verbatim>\<open>ElementNode\<close> itself); \<open>n_textSize\<close> is the value of
  \<^verbatim>\<open>getTextContentSize()\<close> of a text node, whose class is not part of the sources.
\<close>

datatype PointType = TextPoint | ElementPoint

record Point =
  p_key :: NodeKey
  p_offset :: int
  p_type :: PointType

record RangeSelection =
  anchor :: Point
  focus :: Point
  sel_dirty :: bool

datatype error = ReadOnlyViolation | Invariant string

type_synonym ObjectId = nat

text \<open>
  The editor and its pending editor state. \<open>selection\<close> is \<open>None\<close> when \<^verbatim>\<open>$getSelection()\<close>
  is \<^verbatim>\<open>null\<close> or not a range selection.

  The node map holds node objects: \<open>nodeMap s k\<close> is the fields of the object stored under
  the key \<open>k\<close> and \<open>objectOf s k\<close> is the identity of that object (its address);
  \<open>nextObject s\<close> is the identity that the next \<^verbatim>\<open>new\<close> hands out. Two references are the
  same object exactly when their identities are equal. \<open>cloneLog\<close> is a ghost field: it
  records every call of \<^verbatim>\<open>constructor.clone\<close> made by \<^verbatim>\<open>getWritable\<close> and is read by no
  operation.
\<close>

record EditorState =
  nodeMap :: "NodeKey \<rightharpoonup> LexicalNode"
  selection :: "RangeSelection option"
  readOnly :: bool
  cloneNotNeeded :: "NodeKey set"
  dirtyElements :: "NodeKey set"
  dirtyLeaves :: "NodeKey set"
  compositionKey :: "NodeKey option"
  cloneLog :: "NodeKey list"
  objectOf :: "NodeKey \<Rightarrow> ObjectId"
  nextObject :: ObjectId

datatype 'a outcome = Return 'a EditorState | Throw error EditorState

definition isElementNode :: "LexicalNode \<Rightarrow> bool" where
  "isElementNode n = (n_class n = ElementClass \<or> n_class n = RootClass)"

definition isRootNode :: "LexicalNode \<Rightarrow> bool" where
  "isRootNode n = (n_class n = RootClass)"

definition isTextNode :: "LexicalNode \<Rightarrow> bool" where
  "isTextNode n = (n_class n = TextClass)"

subsection \<open>Sequencing\<close>

text \<open>
  A mutating method returns \<open>None\<close> when one of its loops never returns, \<open>Some (Throw e s)\<close>
  when it throws \<open>e\<close> in state \<open>s\<close>, and \<open>Some (Return v s)\<close> otherwise. \<open>bind\<close> runs the
  rest of a method body after a mutating call, \<open>reading\<close> after a read of the graph that
  may throw or loop, and \<open>forEach\<close> is a counted \<^verbatim>\<open>for\<close> loop or \<^verbatim>\<open>Array.forEach\<close>.
\<close>

definition bind ::
  "'a outcome option \<Rightarrow> ('a \<Rightarrow> EditorState \<Rightarrow> 'b outcome option) \<Rightarrow> 'b outcome option" where
  "bind m f = (case m of None \<Rightarrow> None
               | Some (Throw e s) \<Rightarrow> Some (Throw e s)
               | Some (Return a s) \<Rightarrow> f a s)"

definition reading ::
  "(error + 'a) option \<Rightarrow> EditorState \<Rightarrow> ('a \<Rightarrow> 'b outcome option) \<Rightarrow> 'b outcome option" where
  "reading r s f = (case r of None \<Rightarrow> None
                    | Some (Inl e) \<Rightarrow> Some (Throw e s)
                    | Some (Inr a) \<Rightarrow> f a)"

fun forEach ::
  "'i list \<Rightarrow> ('i \<Rightarrow> EditorState \<Rightarrow> unit outcome option) \<Rightarrow> EditorState \<Rightarrow> unit outcome option" where
  "forEach [] body s = Some (Return () s)"
| "forEach (i # rest) body s = bind (body i s) (\<lambda>_ s'. forEach rest body s')"

subsection \<open>Collaborators that are not part of the sources\<close>

text \<open>
  Modelled from the spec: \<^verbatim>\<open>$getNodeByKey\<close> (LexicalUtils) is missing from the sources;
  section 4.1: resolve(key) looks up a node in the active version's mapping.
  \<open>nodeRef\<close> is the same lookup, returning the reference instead of the object.
\<close>

definition getNodeByKey :: "EditorState \<Rightarrow> NodeKey \<Rightarrow> LexicalNode option" where
  "getNodeByKey s k = nodeMap s k"

definition nodeRef :: "EditorState \<Rightarrow> NodeKey \<Rightarrow> NodeKey option" where
  "nodeRef s k = (case getNodeByKey s k of None \<Rightarrow> None | Some _ \<Rightarrow> Some k)"

text \<open>
  Modelled from the spec: \<^verbatim>\<open>errorOnReadOnly\<close> (LexicalUpdates) is missing from the sources;
  section 4.3: attempting any mutating operation while Idle fails with ReadOnlyViolation.
\<close>

definition errorOnReadOnly :: "EditorState \<Rightarrow> unit outcome" where
  "errorOnReadOnly s = (if readOnly s then Throw ReadOnlyViolation s else Return () s)"

text \<open>
  Modelled from the spec: \<^verbatim>\<open>internalMarkNodeAsDirty\<close> (LexicalUtils) is missing from the
  sources; section 2: the dirty tracker records, per transaction, which element nodes and
  which leaf (non-element) nodes were touched.
\<close>

definition internalMarkNodeAsDirty :: "EditorState \<Rightarrow> NodeKey \<Rightarrow> LexicalNode \<Rightarrow> EditorState" where
  "internalMarkNodeAsDirty s key n =
     (if isElementNode n then s\<lparr>dirtyElements := insert key (dirtyElements s)\<rparr>
      else s\<lparr>dirtyLeaves := insert key (dirtyLeaves s)\<rparr>)"

subsection \<open>LexicalNode: getLatest and getWritable\<close>

definition getLatest :: "EditorState \<Rightarrow> NodeKey \<Rightarrow> error + LexicalNode" where
  "getLatest s key =
     (case getNodeByKey s key of
        None \<Rightarrow> Inl (Invariant ''getLatest: node not found'')
      | Some latest \<Rightarrow> Inr latest)"

text \<open>
  The object behind a reference that \<^verbatim>\<open>getLatest\<close> or \<^verbatim>\<open>getWritable\<close> has already
  resolved in an earlier state. No operation of the sources deletes an entry of the node
  map, so the entry is still there.
\<close>

definition deref :: "EditorState \<Rightarrow> NodeKey \<Rightarrow> LexicalNode" where
  "deref s k = the (nodeMap s k)"

definition updNode :: "EditorState \<Rightarrow> NodeKey \<Rightarrow> (LexicalNode \<Rightarrow> LexicalNode) \<Rightarrow> EditorState" where
  "updNode s k f = s\<lparr>nodeMap := (nodeMap s)(k \<mapsto> f (deref s k))\<rparr>"

text \<open>
  \<^verbatim>\<open>constructor.clone(latestNode)\<close>: the static \<^verbatim>\<open>clone\<close> of a node class builds a new
  instance of the same class with the same key. The constructor of \<^verbatim>\<open>LexicalNode\<close> resets
  the link fields, the constructor of \<^verbatim>\<open>ElementNode\<close> the element fields, and a text node
  starts with format 0. Class-level properties and the text content travel with the class
  and its own \<^verbatim>\<open>clone\<close>. Fields that the class of the node does not have are left alone.
\<close>

definition clone :: "LexicalNode \<Rightarrow> LexicalNode" where
  "clone n =
     (let base = n\<lparr>n_parent := None, n_next := None, n_prev := None\<rparr>
      in if isElementNode n
         then base\<lparr>n_format := 0, n_indent := 0, n_dir := None,
                   n_first := None, n_last := None, n_size := 0\<rparr>
         else if isTextNode n then base\<lparr>n_format := 0\<rparr>
         else base)"

text \<open>
  The allocation of the new instance that \<^verbatim>\<open>constructor.clone\<close> builds, and
  \<^verbatim>\<open>nodeMap.set(key, node)\<close>, which stores an object (its identity and its fields) under
  a key of the pending node map.
\<close>

definition newObject :: "EditorState \<Rightarrow> ObjectId \<times> EditorState" where
  "newObject s = (nextObject s, s\<lparr>nextObject := Suc (nextObject s)\<rparr>)"

definition nodeMapSet :: "EditorState \<Rightarrow> NodeKey \<Rightarrow> ObjectId \<Rightarrow> LexicalNode \<Rightarrow> EditorState" where
  "nodeMapSet s key obj node =
     s\<lparr>nodeMap := (nodeMap s)(key \<mapsto> node), objectOf := (objectOf s)(key := obj)\<rparr>"

text \<open>
  \<^verbatim>\<open>getWritable\<close>, returning the object it returns in the source: the latest node when
  the key is in \<^verbatim>\<open>_cloneNotNeeded\<close>, and otherwise the new instance, which takes the place
  of the latest node in the pending node map.
\<close>

definition getWritableObject :: "EditorState \<Rightarrow> NodeKey \<Rightarrow> ObjectId outcome" where
  "getWritableObject s key =
     (case errorOnReadOnly s of
        Throw e s' \<Rightarrow> Throw e s'
      | Return _ _ \<Rightarrow>
     (case getLatest s key of
        Inl e \<Rightarrow> Throw e s
      | Inr latestNode \<Rightarrow>
          let latestObject = objectOf s key;
              parent = n_parent latestNode;
              prev = n_prev latestNode;
              next = n_next latestNode
          in if key \<in> cloneNotNeeded s
             then Return latestObject (internalMarkNodeAsDirty s key latestNode)
             else
               let mutableNode0 = clone latestNode;
                   (mutableObject, s1) = newObject (s\<lparr>cloneLog := cloneLog s @ [key]\<rparr>);
                   mutableNode1 = mutableNode0\<lparr>n_parent := parent, n_next := next, n_prev := prev\<rparr>;
                   mutableNode =
                     (if isElementNode latestNode \<and> isElementNode mutableNode1
                      then mutableNode1\<lparr>n_indent := n_indent latestNode,
                                         n_format := n_format latestNode,
                                         n_dir := n_dir latestNode,
                                         n_first := n_first latestNode,
                                         n_last := n_last latestNode,
                                         n_size := n_size latestNode\<rparr>
                      else if isTextNode latestNode \<and> isTextNode mutableNode1
                      then mutableNode1\<lparr>n_format := n_format latestNode\<rparr>
                      else mutableNode1);
                   s2 = s1\<lparr>cloneNotNeeded := insert key (cloneNotNeeded s1)\<rparr>;
                   s3 = internalMarkNodeAsDirty s2 key mutableNode;
                   s4 = nodeMapSet s3 key mutableObject mutableNode
               in Return mutableObject s4))"

text \<open>
  \<^verbatim>\<open>getWritable\<close> as the methods of this file call it: they use the writable reference
  through its key only (a write through the reference is a write to the entry of that
  key), so the call hands them the key of the object that \<open>getWritableObject\<close> returns.
\<close>

definition getWritable :: "EditorState \<Rightarrow> NodeKey \<Rightarrow> NodeKey outcome" where
  "getWritable s key =
     (case getWritableObject s key of
        Throw e s' \<Rightarrow> Throw e s'
      | Return _ s' \<Rightarrow> Return key s')"

text \<open>
  The state that \<open>getWritableObject\<close> leaves when it clones the node \<open>n\<close> stored under
  \<open>key\<close>, written out: the key is logged, added to \<^verbatim>\<open>_cloneNotNeeded\<close> and marked dirty, and
  the entry of the key holds the new object.
\<close>

definition cloned :: "EditorState \<Rightarrow> NodeKey \<Rightarrow> LexicalNode \<Rightarrow> EditorState" where
  "cloned s key n =
     (internalMarkNodeAsDirty
        (s\<lparr>cloneLog := cloneLog s @ [key], cloneNotNeeded := insert key (cloneNotNeeded s)\<rparr>)
        key n)\<lparr>nodeMap := nodeMap s, objectOf := (objectOf s)(key := nextObject s),
               nextObject := Suc (nextObject s)\<rparr>"

definition markDirty :: "EditorState \<Rightarrow> NodeKey \<Rightarrow> unit outcome option" where
  "markDirty s key = bind (Some (getWritable s key)) (\<lambda>_ s'. Some (Return () s'))"

definition setPrev :: "EditorState \<Rightarrow> NodeKey \<Rightarrow> NodeKey option \<Rightarrow> unit outcome option" where
  "setPrev s this key =
     bind (Some (getWritable s this)) (\<lambda>writableSelf s'.
       Some (Return () (updNode s' writableSelf (\<lambda>n. n\<lparr>n_prev := key\<rparr>))))"

definition setNext :: "EditorState \<Rightarrow> NodeKey \<Rightarrow> NodeKey option \<Rightarrow> unit outcome option" where
  "setNext s this key =
     bind (Some (getWritable s this)) (\<lambda>writableSelf s'.
       Some (Return () (updNode s' writableSelf (\<lambda>n. n\<lparr>n_next := key\<rparr>))))"

subsection \<open>LexicalNode: parents and siblings\<close>

definition getParent :: "EditorState \<Rightarrow> NodeKey \<Rightarrow> error + NodeKey option" where
  "getParent s this =
     (case getLatest s this of
        Inl e \<Rightarrow> Inl e
      | Inr latest \<Rightarrow>
          (case n_parent latest of
             None \<Rightarrow> Inr None
           | Some parent \<Rightarrow> Inr (nodeRef s parent)))"

definition getParentOrThrow :: "EditorState \<Rightarrow> NodeKey \<Rightarrow> error + NodeKey" where
  "getParentOrThrow s this =
     (case getParent s this of
        Inl e \<Rightarrow> Inl e
      | Inr None \<Rightarrow> Inl (Invariant ''Expected node %s to have a parent.'')
      | Inr (Some parent) \<Rightarrow> Inr parent)"

definition getPreviousSibling :: "EditorState \<Rightarrow> NodeKey \<Rightarrow> error + NodeKey option" where
  "getPreviousSibling s this =
     (case getLatest s this of
        Inl e \<Rightarrow> Inl e
      | Inr latest \<Rightarrow>
          (case n_prev latest of
             None \<Rightarrow> Inr None
           | Some prev \<Rightarrow> Inr (nodeRef s prev)))"

definition getNextSibling :: "EditorState \<Rightarrow> NodeKey \<Rightarrow> error + NodeKey option" where
  "getNextSibling s this =
     (case getLatest s this of
        Inl e \<Rightarrow> Inl e
      | Inr latest \<Rightarrow>
          (case n_next latest of
             None \<Rightarrow> Inr None
           | Some next \<Rightarrow> Inr (nodeRef s next)))"

subsection \<open>ElementNode: reading the child list\<close>

definition getFirstChild :: "EditorState \<Rightarrow> NodeKey \<Rightarrow> error + NodeKey option" where
  "getFirstChild s this =
     (case getLatest s this of
        Inl e \<Rightarrow> Inl e
      | Inr self \<Rightarrow>
          (case n_first self of
             Some firstChildKey \<Rightarrow> Inr (nodeRef s firstChildKey)
           | None \<Rightarrow> Inr None))"

definition getLastChild :: "EditorState \<Rightarrow> NodeKey \<Rightarrow> error + NodeKey option" where
  "getLastChild s this =
     (case getLatest s this of
        Inl e \<Rightarrow> Inl e
      | Inr self \<Rightarrow>
          (case n_last self of
             Some lastChildKey \<Rightarrow> Inr (nodeRef s lastChildKey)
           | None \<Rightarrow> Inr None))"

definition getChildrenSize :: "EditorState \<Rightarrow> NodeKey \<Rightarrow> error + int" where
  "getChildrenSize s this = map_sum id n_size (getLatest s this)"

definition isEmpty :: "EditorState \<Rightarrow> NodeKey \<Rightarrow> error + bool" where
  "isEmpty s this = map_sum id (\<lambda>size. size = 0) (getChildrenSize s this)"

text \<open>
  \<^verbatim>\<open>forEachChild\<close> with the callback of \<^verbatim>\<open>getChildrenKeys\<close>: the loop pushes the key of
  every child it reaches.
\<close>

partial_function (option) forEachChild_keys ::
  "EditorState \<Rightarrow> NodeKey option \<Rightarrow> NodeKey list \<Rightarrow> NodeKey list option" where
  "forEachChild_keys s next childKeys =
     (case next of
        None \<Rightarrow> Some childKeys
      | Some k \<Rightarrow>
          (case getNodeByKey s k of
             Some childNode \<Rightarrow> forEachChild_keys s (n_next childNode) (childKeys @ [k])
           | None \<Rightarrow> Some childKeys))"

definition getChildrenKeys :: "EditorState \<Rightarrow> NodeKey \<Rightarrow> (error + NodeKey list) option" where
  "getChildrenKeys s this =
     (case getLatest s this of
        Inl e \<Rightarrow> Some (Inl e)
      | Inr self \<Rightarrow> map_option Inr (forEachChild_keys s (n_first self) []))"

text \<open>
  \<^verbatim>\<open>getChildAtIndex\<close>. The counter of the loop is declared \<^verbatim>\<open>const count = 0\<close> before the
  loop and is never incremented; the loop compares it with \<^verbatim>\<open>index + 1\<close>. The loop takes
  the pair of \<^verbatim>\<open>index\<close> and \<^verbatim>\<open>count\<close>.
\<close>

partial_function (option) getChildAtIndex_loop ::
  "EditorState \<Rightarrow> int \<times> int \<Rightarrow> NodeKey option \<Rightarrow> NodeKey option option" where
  "getChildAtIndex_loop s ic next =
     (case next of
        None \<Rightarrow> Some None
      | Some k \<Rightarrow>
          (case getNodeByKey s k of
             Some childNode \<Rightarrow>
               if snd ic = fst ic + 1 then Some (Some k)
               else getChildAtIndex_loop s ic (n_next childNode)
           | None \<Rightarrow> Some None))"

definition getChildAtIndex :: "EditorState \<Rightarrow> NodeKey \<Rightarrow> int \<Rightarrow> (error + NodeKey option) option" where
  "getChildAtIndex s this index =
     (case getLatest s this of
        Inl e \<Rightarrow> Some (Inl e)
      | Inr self \<Rightarrow>
          (case n_first self of
             None \<Rightarrow> Some (Inr None)
           | Some next \<Rightarrow>
               if index = 0 then Some (Inr (nodeRef s next))
               else let count = 0
                    in map_option Inr (getChildAtIndex_loop s (index, count) (Some next))))"

text \<open>\<^verbatim>\<open>getIndexWithinParent\<close>: the loop takes the pair of \<^verbatim>\<open>this.__key\<close> and \<^verbatim>\<open>index\<close>.\<close>

partial_function (option) getIndexWithinParent_loop ::
  "EditorState \<Rightarrow> NodeKey \<times> int \<Rightarrow> NodeKey option \<Rightarrow> (error + int) option" where
  "getIndexWithinParent_loop s ki next =
     (case next of
        None \<Rightarrow> Some (Inr (- 1))
      | Some k \<Rightarrow>
          if fst ki = k then Some (Inr (snd ki))
          else (case getNextSibling s k of
                  Inl e \<Rightarrow> Some (Inl e)
                | Inr next' \<Rightarrow> getIndexWithinParent_loop s (fst ki, snd ki + 1) next'))"

definition getIndexWithinParent :: "EditorState \<Rightarrow> NodeKey \<Rightarrow> (error + int) option" where
  "getIndexWithinParent s this =
     (case getParent s this of
        Inl e \<Rightarrow> Some (Inl e)
      | Inr None \<Rightarrow> Some (Inr (- 1))
      | Inr (Some parent) \<Rightarrow>
          (case getFirstChild s parent of
             Inl e \<Rightarrow> Some (Inl e)
           | Inr firstChild \<Rightarrow> getIndexWithinParent_loop s (this, 0) firstChild))"

subsection \<open>Example documents\<close>

text \<open>
  \<open>newNode\<close> is a node as its constructor leaves it: detached, without children.
  \<open>emptyState\<close> is the pending state of a transaction that has just been opened.
\<close>

definition newNode :: "NodeClass \<Rightarrow> LexicalNode" where
  "newNode c = \<lparr>n_class = c, n_parent = None, n_next = None, n_prev = None, n_format = 0,
     n_indent = 0, n_dir = None, n_first = None, n_last = None, n_size = 0,
     n_canBeEmpty = True, n_textSize = 0\<rparr>"

definition emptyState :: EditorState where
  "emptyState = \<lparr>nodeMap = Map.empty, selection = None, readOnly = False, cloneNotNeeded = {},
     dirtyElements = {}, dirtyLeaves = {}, compositionKey = None, cloneLog = [],
     objectOf = (\<lambda>_. 0), nextObject = 1\<rparr>"

text \<open>
  The objects of an example document: the listed keys hold distinct objects, numbered
  from 1, and \<open>withObjects\<close> sets the next identity beyond them.
\<close>

fun objectsFor :: "NodeKey list \<Rightarrow> NodeKey \<Rightarrow> ObjectId" where
  "objectsFor [] k = 0"
| "objectsFor (x # xs) k = (if k = x then Suc (length xs) else objectsFor xs k)"

definition withObjects :: "NodeKey list \<Rightarrow> EditorState \<Rightarrow> EditorState" where
  "withObjects ks s = s\<lparr>objectOf := objectsFor ks, nextObject := Suc (length ks)\<rparr>"

text \<open>An element \<open>P\<close> with the two text children \<open>A\<close> and \<open>B\<close>.\<close>

definition doc2 :: EditorState where
  "doc2 = withObjects [''P'', ''A'', ''B'']
     (emptyState\<lparr>nodeMap :=
     [''P'' \<mapsto> (newNode ElementClass)\<lparr>n_first := Some ''A'', n_last := Some ''B'', n_size := 2\<rparr>,
      ''A'' \<mapsto> (newNode TextClass)\<lparr>n_parent := Some ''P'', n_next := Some ''B''\<rparr>,
      ''B'' \<mapsto> (newNode TextClass)\<lparr>n_parent := Some ''P'', n_prev := Some ''A''\<rparr>]\<rparr>)"

fun stateOf :: "'a outcome \<Rightarrow> EditorState" where
  "stateOf (Return _ s) = s"
| "stateOf (Throw _ s) = s"

subsection \<open>The clone-once discipline of a transaction\<close>

text \<open>
  What the clone log and the objects of a transaction look like: no key was cloned twice,
  every key that was cloned is in the editor's \<^verbatim>\<open>_cloneNotNeeded\<close> set, and every object
  in the node map was allocated before the next identity.
\<close>

definition cloneOnce :: "EditorState \<Rightarrow> bool" where
  "cloneOnce s =
     (distinct (cloneLog s) \<and> set (cloneLog s) \<subseteq> cloneNotNeeded s
      \<and> (\<forall>k. objectOf s k < nextObject s))"

subsection \<open>LexicalNode: ancestors and document order\<close>

partial_function (option) getParents_loop ::
  "EditorState \<Rightarrow> NodeKey option \<Rightarrow> NodeKey list \<Rightarrow> (error + NodeKey list) option" where
  "getParents_loop s node parents =
     (case node of
        None \<Rightarrow> Some (Inr parents)
      | Some k \<Rightarrow>
          (case getParent s k of
             Inl e \<Rightarrow> Some (Inl e)
           | Inr node' \<Rightarrow> getParents_loop s node' (parents @ [k])))"

definition getParents :: "EditorState \<Rightarrow> NodeKey \<Rightarrow> (error + NodeKey list) option" where
  "getParents s this =
     (case getParent s this of
        Inl e \<Rightarrow> Some (Inl e)
      | Inr node \<Rightarrow> getParents_loop s node [])"

partial_function (option) isParentOf_loop ::
  "EditorState \<Rightarrow> NodeKey \<Rightarrow> NodeKey option \<Rightarrow> (error + bool) option" where
  "isParentOf_loop s key node =
     (case node of
        None \<Rightarrow> Some (Inr False)
      | Some k \<Rightarrow>
          if k = key then Some (Inr True)
          else (case getParent s k of
                  Inl e \<Rightarrow> Some (Inl e)
                | Inr node' \<Rightarrow> isParentOf_loop s key node'))"

definition isParentOf :: "EditorState \<Rightarrow> NodeKey \<Rightarrow> NodeKey \<Rightarrow> (error + bool) option" where
  "isParentOf s this targetNode =
     (let key = this
      in if key = targetNode then Some (Inr False)
         else isParentOf_loop s key (Some targetNode))"

text \<open>
  Sequencing of reads: the rest of a read-only method after a read that may throw or loop.
\<close>

definition andThen ::
  "(error + 'a) option \<Rightarrow> ('a \<Rightarrow> (error + 'b) option) \<Rightarrow> (error + 'b) option" where
  "andThen r f = (case r of None \<Rightarrow> None
                  | Some (Inl e) \<Rightarrow> Some (Inl e)
                  | Some (Inr a) \<Rightarrow> f a)"

text \<open>
  \<^verbatim>\<open>getCommonAncestor\<close>. The lists hold references; two references are the same object
  when their keys are equal.
\<close>

definition getCommonAncestor ::
  "EditorState \<Rightarrow> NodeKey \<Rightarrow> NodeKey \<Rightarrow> (error + NodeKey option) option" where
  "getCommonAncestor s this node =
     andThen (getParents s this) (\<lambda>a0.
     andThen (getParents s node) (\<lambda>b0.
       let a = (if isElementNode (deref s this) then this # a0 else a0);
           b = (if isElementNode (deref s node) then node # b0 else b0)
       in if a = [] \<or> b = [] \<or> last a \<noteq> last b then Some (Inr None)
          else Some (Inr (find (\<lambda>ancestor. ancestor \<in> set b) a))))"

text \<open>
  The two \<^verbatim>\<open>while (true)\<close> loops of \<^verbatim>\<open>isBefore\<close>: climb from \<open>node\<close> until the parent is
  the common ancestor, and return the index of the node reached within that parent.
\<close>

partial_function (option) isBefore_loop ::
  "EditorState \<Rightarrow> NodeKey option \<Rightarrow> NodeKey \<Rightarrow> (error + int) option" where
  "isBefore_loop s commonAncestor node =
     (case getParentOrThrow s node of
        Inl e \<Rightarrow> Some (Inl e)
      | Inr parent \<Rightarrow>
          if Some parent = commonAncestor then getIndexWithinParent s node
          else isBefore_loop s commonAncestor parent)"

definition isBefore :: "EditorState \<Rightarrow> NodeKey \<Rightarrow> NodeKey \<Rightarrow> (error + bool) option" where
  "isBefore s this targetNode =
     andThen (isParentOf s targetNode this) (\<lambda>targetIsParent.
       if targetIsParent then Some (Inr True)
       else andThen (isParentOf s this targetNode) (\<lambda>thisIsParent.
         if thisIsParent then Some (Inr False)
         else andThen (getCommonAncestor s this targetNode) (\<lambda>commonAncestor.
              andThen (isBefore_loop s commonAncestor this) (\<lambda>indexA.
              andThen (isBefore_loop s commonAncestor targetNode) (\<lambda>indexB.
                Some (Inr (indexA < indexB)))))))"

text \<open>
  The ancestors of a node, from its parent up to a node without a parent: the finite
  chain of an attached node.
\<close>

inductive parentChain :: "EditorState \<Rightarrow> NodeKey \<Rightarrow> NodeKey list \<Rightarrow> bool" where
  top: "getParent s k = Inr None \<Longrightarrow> parentChain s k []"
| up: "getParent s k = Inr (Some p) \<Longrightarrow> parentChain s p ps \<Longrightarrow> parentChain s k (p # ps)"

text \<open>
  A root \<open>R\<close> with the element children \<open>E1, E2\<close>; \<open>E1\<close> holds the text \<open>T1\<close> and \<open>E2\<close>
  the text \<open>T2\<close>.
\<close>

definition doc3 :: EditorState where
  "doc3 = withObjects [''R'', ''E1'', ''E2'', ''T1'', ''T2'']
     (emptyState\<lparr>nodeMap :=
     [''R'' \<mapsto> (newNode RootClass)\<lparr>n_first := Some ''E1'', n_last := Some ''E2'', n_size := 2\<rparr>,
      ''E1'' \<mapsto> (newNode ElementClass)\<lparr>n_parent := Some ''R'', n_next := Some ''E2'',
                 n_first := Some ''T1'', n_last := Some ''T1'', n_size := 1\<rparr>,
      ''E2'' \<mapsto> (newNode ElementClass)\<lparr>n_parent := Some ''R'', n_prev := Some ''E1'',
                 n_first := Some ''T2'', n_last := Some ''T2'', n_size := 1\<rparr>,
      ''T1'' \<mapsto> (newNode TextClass)\<lparr>n_parent := Some ''E1''\<rparr>,
      ''T2'' \<mapsto> (newNode TextClass)\<lparr>n_parent := Some ''E2''\<rparr>]\<rparr>)"

subsection \<open>Selection\<close>

datatype PointRef = AnchorPoint | FocusPoint

text \<open>
  Modelled from the spec: \<^verbatim>\<open>Point.set\<close> (LexicalSelection) is missing from the sources;
  section 3: a selection point is a node key, an offset and an offset kind.
  \<open>setPoint\<close> writes the three fields of the anchor or the focus of the range selection.
\<close>

definition setPoint :: "PointRef \<Rightarrow> NodeKey \<Rightarrow> int \<Rightarrow> PointType \<Rightarrow> EditorState \<Rightarrow> EditorState" where
  "setPoint point key offset type s =
     s\<lparr>selection :=
         map_option (\<lambda>sel. case point of
                        AnchorPoint \<Rightarrow> sel\<lparr>anchor := \<lparr>p_key = key, p_offset = offset, p_type = type\<rparr>\<rparr>
                      | FocusPoint \<Rightarrow> sel\<lparr>focus := \<lparr>p_key = key, p_offset = offset, p_type = type\<rparr>\<rparr>)
           (selection s)\<rparr>"

definition getPoint :: "PointRef \<Rightarrow> RangeSelection \<Rightarrow> Point" where
  "getPoint point sel = (case point of AnchorPoint \<Rightarrow> anchor sel | FocusPoint \<Rightarrow> focus sel)"

text \<open>
  Modelled from the spec: \<^verbatim>\<open>Point.getNode\<close> (LexicalSelection) is missing from the sources;
  section 7: selection repair must never raise for "node not found", absence is an
  expected case. An absent node is \<^verbatim>\<open>null\<close>.
\<close>

definition pointGetNode :: "EditorState \<Rightarrow> Point \<Rightarrow> NodeKey option" where
  "pointGetNode s point = nodeRef s (p_key point)"

text \<open>
  Modelled from the spec: \<^verbatim>\<open>moveSelectionPointToSibling\<close> (LexicalSelection) is missing
  from the sources; section 4.4: when a point's node is deleted, it is re-anchored to the
  previous surviving sibling at its end offset if one exists in the "before" boundary;
  else to the next surviving sibling at offset 0; else to the parent element at the index
  the deleted run occupied. The end offset of a text node is its text size, that of any
  other node its child count.
\<close>

definition moveSelectionPointToSibling ::
  "EditorState \<Rightarrow> PointRef \<Rightarrow> NodeKey \<Rightarrow> NodeKey \<Rightarrow> NodeKey option \<Rightarrow> NodeKey option
     \<Rightarrow> unit outcome option" where
  "moveSelectionPointToSibling s point node parent prevSibling nextSibling =
     (case prevSibling of
        Some prev \<Rightarrow>
          let n = deref s prev
          in if isTextNode n
             then Some (Return () (setPoint point prev (n_textSize n) TextPoint s))
             else Some (Return () (setPoint point prev (n_size n) ElementPoint s))
      | None \<Rightarrow>
          (case nextSibling of
             Some next \<Rightarrow>
               Some (Return () (setPoint point next 0
                      (if isTextNode (deref s next) then TextPoint else ElementPoint) s))
           | None \<Rightarrow>
               reading (getIndexWithinParent s node) s (\<lambda>index.
                 Some (Return () (setPoint point parent index ElementPoint s)))))"

datatype ElementFormatType = FormatLeft | FormatCenter | FormatRight | FormatJustify

text \<open>
  The functions and the table that the sources import from files that are not part of
  them, and that the spec does not describe: they are parameters of the operations.
  Each function takes the arguments of its source counterpart (the selection argument is
  the range selection of the state) and the state.
  \<^item> \<open>c_updateElementSelection parent nodeOffset times\<close>:
    \<^verbatim>\<open>$updateElementSelectionOnCreateDeleteNode(selection, parent, nodeOffset, times)\<close>;
  \<^item> \<open>c_moveSelectionPointToEnd point node\<close>: \<^verbatim>\<open>$moveSelectionPointToEnd(point, node)\<close>;
  \<^item> \<open>c_textSelect node anchorOffset focusOffset\<close>: \<^verbatim>\<open>TextNode.select\<close>;
  \<^item> \<open>c_internalMakeRangeSelection\<close>: \<^verbatim>\<open>internalMakeRangeSelection\<close>;
  \<^item> \<open>c_setCompositionKey\<close>: \<^verbatim>\<open>$setCompositionKey\<close>;
  \<^item> \<open>c_elementTypeToFormat\<close>: the table \<^verbatim>\<open>ELEMENT_TYPE_TO_FORMAT\<close>.
\<close>

record Collaborators =
  c_updateElementSelection :: "NodeKey \<Rightarrow> int \<Rightarrow> int \<Rightarrow> EditorState \<Rightarrow> unit outcome option"
  c_moveSelectionPointToEnd :: "PointRef \<Rightarrow> NodeKey \<Rightarrow> EditorState \<Rightarrow> unit outcome option"
  c_textSelect :: "NodeKey \<Rightarrow> int option \<Rightarrow> int option \<Rightarrow> EditorState \<Rightarrow> unit outcome option"
  c_internalMakeRangeSelection ::
    "NodeKey \<Rightarrow> int \<Rightarrow> NodeKey \<Rightarrow> int \<Rightarrow> PointType \<Rightarrow> PointType \<Rightarrow> EditorState \<Rightarrow> unit outcome option"
  c_setCompositionKey :: "NodeKey \<Rightarrow> EditorState \<Rightarrow> unit outcome option"
  c_elementTypeToFormat :: "ElementFormatType \<Rightarrow> int"

text \<open>
  Modelled from the spec: \<^verbatim>\<open>removeFromParent\<close> (LexicalUtils) is missing from the sources;
  sections 3 and 4.2: detaching a node unlinks it from the child list of its parent: the
  siblings around it are linked to each other, \<^verbatim>\<open>firstChild\<close> and \<^verbatim>\<open>lastChild\<close> of the
  parent follow, the child count drops by one, and the node ends with no parent and no
  siblings. A node without a parent is left as it is.
\<close>

definition removeFromParent :: "EditorState \<Rightarrow> NodeKey \<Rightarrow> unit outcome option" where
  "removeFromParent s node =
     reading (Some (getParent s node)) s (\<lambda>oldParent.
       case oldParent of
         None \<Rightarrow> Some (Return () s)
       | Some parent \<Rightarrow>
           reading (Some (getPreviousSibling s node)) s (\<lambda>prevSibling.
           reading (Some (getNextSibling s node)) s (\<lambda>nextSibling.
           bind (Some (getWritable s parent)) (\<lambda>writableParent s.
           bind (case prevSibling of
                   None \<Rightarrow> Some (Return () (updNode s writableParent (\<lambda>n. n\<lparr>n_first := nextSibling\<rparr>)))
                 | Some prev \<Rightarrow> setNext s prev nextSibling) (\<lambda>_ s.
           bind (case nextSibling of
                   None \<Rightarrow> Some (Return () (updNode s writableParent (\<lambda>n. n\<lparr>n_last := prevSibling\<rparr>)))
                 | Some next \<Rightarrow> setPrev s next prevSibling) (\<lambda>_ s.
           bind (Some (Return () (updNode s writableParent (\<lambda>n. n\<lparr>n_size := n_size n - 1\<rparr>)))) (\<lambda>_ s.
           bind (Some (getWritable s node)) (\<lambda>writableNode s.
             Some (Return () (updNode s writableNode
                    (\<lambda>n. n\<lparr>n_parent := None, n_prev := None, n_next := None\<rparr>)))))))))))"

subsection \<open>ElementNode: select, selectEnd\<close>

definition select ::
  "Collaborators \<Rightarrow> EditorState \<Rightarrow> NodeKey \<Rightarrow> int option \<Rightarrow> int option \<Rightarrow> unit outcome option" where
  "select c s this anchorOffset0 focusOffset0 =
     bind (Some (errorOnReadOnly s)) (\<lambda>_ s.
       let sel = selection s
       in reading (Some (getChildrenSize s this)) s (\<lambda>childrenCount.
            let anchorOffset = (case anchorOffset0 of None \<Rightarrow> childrenCount | Some v \<Rightarrow> v);
                focusOffset = (case focusOffset0 of None \<Rightarrow> childrenCount | Some v \<Rightarrow> v);
                key = this
            in case sel of
                 None \<Rightarrow>
                   c_internalMakeRangeSelection c key anchorOffset key focusOffset
                     ElementPoint ElementPoint s
               | Some _ \<Rightarrow>
                   let s1 = setPoint AnchorPoint key anchorOffset ElementPoint s;
                       s2 = setPoint FocusPoint key focusOffset ElementPoint s1;
                       s3 = s2\<lparr>selection := map_option (\<lambda>r. r\<lparr>sel_dirty := True\<rparr>) (selection s2)\<rparr>
                   in Some (Return () s3)))"

partial_function (option) getLastDescendant_loop ::
  "EditorState \<Rightarrow> NodeKey option \<Rightarrow> (error + NodeKey option) option" where
  "getLastDescendant_loop s node =
     (case node of
        None \<Rightarrow> Some (Inr None)
      | Some k \<Rightarrow>
          if isElementNode (deref s k)
          then (case getLastChild s k of
                  Inl e \<Rightarrow> Some (Inl e)
                | Inr child \<Rightarrow>
                    (case child of
                       Some ch \<Rightarrow> getLastDescendant_loop s (Some ch)
                     | None \<Rightarrow> Some (Inr (Some k))))
          else Some (Inr (Some k)))"

definition getLastDescendant :: "EditorState \<Rightarrow> NodeKey \<Rightarrow> (error + NodeKey option) option" where
  "getLastDescendant s this =
     (case getLastChild s this of
        Inl e \<Rightarrow> Some (Inl e)
      | Inr node \<Rightarrow> getLastDescendant_loop s node)"

definition selectNext ::
  "Collaborators \<Rightarrow> EditorState \<Rightarrow> NodeKey \<Rightarrow> int option \<Rightarrow> int option \<Rightarrow> unit outcome option" where
  "selectNext c s this anchorOffset focusOffset =
     bind (Some (errorOnReadOnly s)) (\<lambda>_ s.
     reading (Some (getNextSibling s this)) s (\<lambda>nextSibling.
     reading (Some (getParentOrThrow s this)) s (\<lambda>parent.
       case nextSibling of
         None \<Rightarrow> select c s parent None None
       | Some next \<Rightarrow>
           if isElementNode (deref s next) then select c s next (Some 0) (Some 0)
           else if \<not> isTextNode (deref s next)
           then reading (getIndexWithinParent s next) s (\<lambda>index.
                  select c s parent (Some index) (Some index))
           else c_textSelect c next anchorOffset focusOffset s)))"

definition selectEnd :: "Collaborators \<Rightarrow> EditorState \<Rightarrow> NodeKey \<Rightarrow> unit outcome option" where
  "selectEnd c s this =
     reading (getLastDescendant s this) s (\<lambda>lastNode.
       case lastNode of
         Some l \<Rightarrow>
           if isElementNode (deref s l) then select c s l None None
           else if isTextNode (deref s l) then c_textSelect c l None None s
           else selectNext c s l None None
       | None \<Rightarrow> select c s this None None)"

subsection \<open>removeNode and LexicalNode.remove\<close>

lemma bind_mono [partial_function_mono]:
  assumes mf: "mono_option B" and mg: "\<And>y s. mono_option (\<lambda>f. C y s f)"
  shows "mono_option (\<lambda>f. bind (B f) (\<lambda>y s. C y s f))"
proof -
  have alt: "\<And>m g. bind m g =
      Option.bind m (\<lambda>r. case r of Throw e s \<Rightarrow> Some (Throw e s) | Return a s \<Rightarrow> g a s)"
    by (simp add: bind_def split: option.splits outcome.splits)
  have "mono_option (\<lambda>f. case r of Throw e s \<Rightarrow> Some (Throw e s) | Return a s \<Rightarrow> C a s f)" for r
    by (cases r) (simp_all add: mg option.const_mono)
  with mf show ?thesis
    unfolding alt by (rule Partial_Function.bind_mono)
qed

lemma reading_mono [partial_function_mono]:
  assumes mg: "\<And>y. mono_option (\<lambda>f. C y f)"
  shows "mono_option (\<lambda>f. reading r s (\<lambda>y. C y f))"
proof (cases r)
  case None
  then show ?thesis by (simp add: reading_def option.const_mono)
next
  case (Some v)
  then show ?thesis by (cases v) (simp_all add: reading_def mg option.const_mono)
qed

text \<open>
  The selection repair at the head of \<^verbatim>\<open>removeNode\<close>, for one point; the result says
  whether the point was moved.
\<close>

definition removeNode_movePoint ::
  "EditorState \<Rightarrow> PointRef \<Rightarrow> NodeKey \<Rightarrow> NodeKey \<Rightarrow> bool outcome option" where
  "removeNode_movePoint s point nodeToRemove parent =
     (case selection s of
        None \<Rightarrow> Some (Return False s)
      | Some sel \<Rightarrow>
          if p_key (getPoint point sel) = nodeToRemove
          then reading (Some (getPreviousSibling s nodeToRemove)) s (\<lambda>prevSibling.
               reading (Some (getNextSibling s nodeToRemove)) s (\<lambda>nextSibling.
               bind (moveSelectionPointToSibling s point nodeToRemove parent prevSibling nextSibling)
                 (\<lambda>_ s. Some (Return True s))))
          else Some (Return False s))"

text \<open>
  The first block of \<^verbatim>\<open>removeNode\<close>: when there is a range selection and
  \<^verbatim>\<open>restoreSelection\<close> is set, both points are repaired. The result is whether
  \<^verbatim>\<open>selection\<close> is a range selection, and \<^verbatim>\<open>selectionMoved\<close>.
\<close>

definition removeNode_restoreSelection ::
  "EditorState \<Rightarrow> NodeKey \<Rightarrow> NodeKey \<Rightarrow> bool \<Rightarrow> (bool \<times> bool) outcome option" where
  "removeNode_restoreSelection s nodeToRemove parent restoreSelection =
     (if selection s \<noteq> None \<and> restoreSelection
      then bind (removeNode_movePoint s AnchorPoint nodeToRemove parent) (\<lambda>movedAnchor s.
           bind (removeNode_movePoint s FocusPoint nodeToRemove parent) (\<lambda>movedFocus s.
             Some (Return (True, movedAnchor \<or> movedFocus) s)))
      else Some (Return (selection s \<noteq> None, False) s))"

text \<open>
  The block after \<^verbatim>\<open>removeFromParent\<close>: an element selection on the parent is shifted
  when the selection was not moved.
\<close>

definition removeNode_shiftSelection ::
  "Collaborators \<Rightarrow> EditorState \<Rightarrow> bool \<times> bool \<Rightarrow> bool \<Rightarrow> NodeKey \<Rightarrow> int \<Rightarrow> unit outcome option" where
  "removeNode_shiftSelection c s sel restoreSelection parent index =
     (if fst sel \<and> restoreSelection \<and> \<not> snd sel
      then c_updateElementSelection c parent index (- 1) s
      else Some (Return () s))"

text \<open>
  \<^verbatim>\<open>removeNode(nodeToRemove, restoreSelection, preserveEmptyParent)\<close>; the three arguments
  are one triple. An omitted \<^verbatim>\<open>preserveEmptyParent\<close> is \<^verbatim>\<open>undefined\<close>, that is, false.
  The variable \<^verbatim>\<open>selection\<close> is bound once, so whether it is a range selection is decided
  at the start; its points are read when they are used.
\<close>

partial_function (option) removeNode_rec ::
  "Collaborators \<Rightarrow> EditorState \<Rightarrow> NodeKey \<times> bool \<times> bool \<Rightarrow> unit outcome option" where
  "removeNode_rec c s args =
     bind (Some (errorOnReadOnly s)) (\<lambda>_ s.
     reading (Some (getParent s (fst args))) s (\<lambda>parent0.
       case parent0 of
         None \<Rightarrow> Some (Return () s)
       | Some parent \<Rightarrow>
           bind (removeNode_restoreSelection s (fst args) parent (fst (snd args))) (\<lambda>sel s.
           reading (getIndexWithinParent s (fst args)) s (\<lambda>index.
             if index = - 1 then Some (Throw (Invariant ''Node is not a child of its parent'') s)
             else
           bind (Some (getWritable s (fst args))) (\<lambda>writableNodeToRemove s.
           bind (removeFromParent s writableNodeToRemove) (\<lambda>_ s.
           bind (removeNode_shiftSelection c s sel (fst (snd args)) parent index) (\<lambda>_ s.
           bind (if \<not> snd (snd args) \<and> \<not> isRootNode (deref s parent)
                    \<and> \<not> n_canBeEmpty (deref s parent)
                 then reading (Some (isEmpty s parent)) s (\<lambda>empty.
                        if empty then removeNode_rec c s (parent, fst (snd args), False)
                        else Some (Return () s))
                 else Some (Return () s)) (\<lambda>_ s.
             if isRootNode (deref s parent)
             then reading (Some (isEmpty s parent)) s (\<lambda>empty.
                    if empty then selectEnd c s parent else Some (Return () s))
             else Some (Return () s)))))))))"

definition removeNode ::
  "Collaborators \<Rightarrow> EditorState \<Rightarrow> NodeKey \<Rightarrow> bool \<Rightarrow> bool \<Rightarrow> unit outcome option" where
  "removeNode c s nodeToRemove restoreSelection preserveEmptyParent =
     removeNode_rec c s (nodeToRemove, restoreSelection, preserveEmptyParent)"

definition remove :: "Collaborators \<Rightarrow> EditorState \<Rightarrow> NodeKey \<Rightarrow> bool \<Rightarrow> unit outcome option" where
  "remove c s this preserveEmptyParent =
     bind (Some (errorOnReadOnly s)) (\<lambda>_ s. removeNode c s this True preserveEmptyParent)"

subsection \<open>ElementNode: mutators\<close>

definition getNodeByKeyOrThrow :: "EditorState \<Rightarrow> NodeKey \<Rightarrow> error + NodeKey" where
  "getNodeByKeyOrThrow s key =
     (case getNodeByKey s key of
        None \<Rightarrow> Inl (Invariant ''Expected node with key %s to exist but it's not in the nodeMap.'')
      | Some _ \<Rightarrow> Inr key)"

definition clear :: "Collaborators \<Rightarrow> EditorState \<Rightarrow> NodeKey \<Rightarrow> NodeKey outcome option" where
  "clear c s this =
     bind (Some (errorOnReadOnly s)) (\<lambda>_ s.
     bind (Some (getWritable s this)) (\<lambda>writableSelf s.
     reading (getChildrenKeys s this) s (\<lambda>children.
     bind (forEach children (\<lambda>child s. remove c s child False) s) (\<lambda>_ s.
       Some (Return writableSelf s)))))"

definition append :: "EditorState \<Rightarrow> NodeKey \<Rightarrow> NodeKey list \<Rightarrow> NodeKey outcome option" where
  "append s this nodesToAppend =
     bind (Some (errorOnReadOnly s)) (\<lambda>_ s.
       let nodesToAppendLength = length nodesToAppend
       in if nodesToAppendLength = 0 then Some (Return this s)
          else
     bind (Some (getWritable s this)) (\<lambda>self s.
       let writableSelfKey = self
       in
     bind (forEach [0..<nodesToAppendLength] (\<lambda>i s.
             let node = nodesToAppend ! i
             in bind (Some (getWritable s node)) (\<lambda>writableNodeToInsert s.
                  if node = writableSelfKey
                  then Some (Throw (Invariant ''append: attemtping to append self'') s)
                  else
                bind (removeFromParent s writableNodeToInsert) (\<lambda>_ s.
                bind (Some (Return () (updNode s writableNodeToInsert
                                        (\<lambda>n. n\<lparr>n_parent := Some writableSelfKey\<rparr>)))) (\<lambda>_ s.
                bind (if i = 0 then setPrev s node None
                      else setPrev s node (Some (nodesToAppend ! (i - 1)))) (\<lambda>_ s.
                  if i = nodesToAppendLength - 1 then setNext s node None
                  else setNext s node (Some (nodesToAppend ! (i + 1)))))))) s) (\<lambda>_ s.
       let firstNodeToAppend = nodesToAppend ! 0;
           lastNodeToAppend = nodesToAppend ! (nodesToAppendLength - 1)
       in case n_last (deref s self) of
            None \<Rightarrow>
              Some (Return this (updNode s self
                     (\<lambda>n. n\<lparr>n_first := Some firstNodeToAppend, n_last := Some lastNodeToAppend,
                             n_size := int nodesToAppendLength\<rparr>)))
          | Some selfLast \<Rightarrow>
              reading (Some (getNodeByKeyOrThrow s selfLast)) s (\<lambda>lastNode.
              bind (setNext s lastNode (Some firstNodeToAppend)) (\<lambda>_ s.
              bind (setPrev s firstNodeToAppend (n_last (deref s self))) (\<lambda>_ s.
                Some (Return this (updNode s self
                       (\<lambda>n. n\<lparr>n_last := Some lastNodeToAppend,
                               n_size := n_size n + int nodesToAppendLength\<rparr>)))))))))"

definition setDirection :: "EditorState \<Rightarrow> NodeKey \<Rightarrow> Direction option \<Rightarrow> NodeKey outcome option" where
  "setDirection s this direction =
     bind (Some (errorOnReadOnly s)) (\<lambda>_ s.
     bind (Some (getWritable s this)) (\<lambda>self s.
       Some (Return self (updNode s self (\<lambda>n. n\<lparr>n_dir := direction\<rparr>)))))"

definition setFormat ::
  "Collaborators \<Rightarrow> EditorState \<Rightarrow> NodeKey \<Rightarrow> ElementFormatType \<Rightarrow> NodeKey outcome option" where
  "setFormat c s this type =
     bind (Some (errorOnReadOnly s)) (\<lambda>_ s.
     bind (Some (getWritable s this)) (\<lambda>self s.
       Some (Return this (updNode s self (\<lambda>n. n\<lparr>n_format := c_elementTypeToFormat c type\<rparr>)))))"

definition setIndent :: "EditorState \<Rightarrow> NodeKey \<Rightarrow> int \<Rightarrow> NodeKey outcome option" where
  "setIndent s this indentLevel =
     bind (Some (errorOnReadOnly s)) (\<lambda>_ s.
     bind (Some (getWritable s this)) (\<lambda>self s.
       Some (Return this (updNode s self (\<lambda>n. n\<lparr>n_indent := indentLevel\<rparr>)))))"

subsection \<open>ElementNode.splice\<close>

text \<open>
  The loop that collects the keys to remove: it runs while \<^verbatim>\<open>next\<close> is not \<^verbatim>\<open>null\<close> and
  \<^verbatim>\<open>deletedCount < deleteCount\<close>, so at most \<^verbatim>\<open>deleteCount\<close> times; the first argument
  is the number of rounds that are left.
\<close>

fun splice_collect ::
  "nat \<Rightarrow> EditorState \<Rightarrow> NodeKey option \<Rightarrow> NodeKey list \<Rightarrow> error + NodeKey list" where
  "splice_collect 0 s next nodesToRemoveKeys = Inr nodesToRemoveKeys"
| "splice_collect (Suc left) s next nodesToRemoveKeys =
     (case next of
        None \<Rightarrow> Inr nodesToRemoveKeys
      | Some k \<Rightarrow>
          (case getNextSibling s k of
             Inl e \<Rightarrow> Inl e
           | Inr next' \<Rightarrow> splice_collect left s next' (nodesToRemoveKeys @ [k])))"

text \<open>The local function \<^verbatim>\<open>isPointRemoved\<close> of \<^verbatim>\<open>splice\<close>.\<close>

partial_function (option) isPointRemoved_loop ::
  "EditorState \<Rightarrow> NodeKey set \<times> NodeKey set \<Rightarrow> NodeKey option \<Rightarrow> (error + bool) option" where
  "isPointRemoved_loop s sets node =
     (case node of
        None \<Rightarrow> Some (Inr False)
      | Some nodeKey \<Rightarrow>
          if nodeKey \<in> fst sets \<and> nodeKey \<notin> snd sets then Some (Inr True)
          else (case getParent s nodeKey of
                  Inl e \<Rightarrow> Some (Inl e)
                | Inr node' \<Rightarrow> isPointRemoved_loop s sets node'))"

definition isPointRemoved ::
  "EditorState \<Rightarrow> NodeKey set \<Rightarrow> NodeKey set \<Rightarrow> Point \<Rightarrow> (error + bool) option" where
  "isPointRemoved s nodesToRemoveKeySet nodesToInsertKeySet point =
     isPointRemoved_loop s (nodesToRemoveKeySet, nodesToInsertKeySet) (pointGetNode s point)"

text \<open>The repair of one selection point in \<^verbatim>\<open>splice\<close>.\<close>

definition splice_movePoint ::
  "EditorState \<Rightarrow> PointRef \<Rightarrow> NodeKey set \<Rightarrow> NodeKey set \<Rightarrow> NodeKey
     \<Rightarrow> NodeKey option \<Rightarrow> NodeKey option \<Rightarrow> unit outcome option" where
  "splice_movePoint s point nodesToRemoveKeySet nodesToInsertKeySet this nodeBeforeRange nodeAfterRange =
     (case selection s of
        None \<Rightarrow> Some (Return () s)
      | Some sel \<Rightarrow>
          reading (isPointRemoved s nodesToRemoveKeySet nodesToInsertKeySet (getPoint point sel)) s
            (\<lambda>removed.
               if removed
               then (case pointGetNode s (getPoint point sel) of
                       None \<Rightarrow> Some (Return () s)
                     | Some pointNode \<Rightarrow>
                         moveSelectionPointToSibling s point pointNode this
                           nodeBeforeRange nodeAfterRange)
               else Some (Return () s)))"

definition splice ::
  "Collaborators \<Rightarrow> EditorState \<Rightarrow> NodeKey \<Rightarrow> int \<Rightarrow> int \<Rightarrow> NodeKey list \<Rightarrow> NodeKey outcome option" where
  "splice c s this start deleteCount nodesToInsert =
     bind (Some (errorOnReadOnly s)) (\<lambda>_ s.
     bind (Some (getWritable s this)) (\<lambda>writableSelf s.
       let writableSelfKey = writableSelf;
           nodesToInsertLength = length nodesToInsert
       in
     bind (forEach [0..<nodesToInsertLength] (\<lambda>i s.
             let nodeToInsert = nodesToInsert ! i
             in bind (Some (getWritable s nodeToInsert)) (\<lambda>writableNodeToInsert s.
                  if nodeToInsert = writableSelfKey
                  then Some (Throw (Invariant ''append: attemtping to append self'') s)
                  else
                bind (removeFromParent s writableNodeToInsert) (\<lambda>_ s.
                  Some (Return () (updNode s writableNodeToInsert
                         (\<lambda>n. n\<lparr>n_parent := Some writableSelfKey\<rparr>)))))) s) (\<lambda>_ s.
       let nodesToInsertKeys = nodesToInsert
       in
     reading (getChildAtIndex s this (start - 1)) s (\<lambda>nodeBeforeRange.
     bind (Some (Return () (case nodeBeforeRange of
                              Some b \<Rightarrow> internalMarkNodeAsDirty s b (deref s b)
                            | None \<Rightarrow> s))) (\<lambda>_ s.
     reading (getChildAtIndex s this (start + deleteCount)) s (\<lambda>nodeAfterRange.
     bind (Some (Return () (case nodeAfterRange of
                              Some a \<Rightarrow> internalMarkNodeAsDirty s a (deref s a)
                            | None \<Rightarrow> s))) (\<lambda>_ s.
     bind (forEach [0..<length nodesToInsertKeys] (\<lambda>index s.
             let key = nodesToInsertKeys ! index
             in case getNodeByKey s key of
                  None \<Rightarrow> Some (Return () s)
                | Some _ \<Rightarrow>
                    bind (if index \<noteq> 0 then setPrev s key (Some (nodesToInsertKeys ! (index - 1)))
                          else Some (Return () s)) (\<lambda>_ s.
                      if index \<noteq> length nodesToInsertKeys - 1
                      then setNext s key (Some (nodesToInsertKeys ! (index + 1)))
                      else Some (Return () s))) s) (\<lambda>_ s.
       let firstNodeKeyToInsert =
             (if nodesToInsertKeys = [] then None else Some (nodesToInsertKeys ! 0));
           lastNodeKeyToInsert =
             (if nodesToInsertKeys = [] then None
              else Some (nodesToInsertKeys ! (nodesToInsertLength - 1)))
       in
     reading (if start = 0 then Some (Inr None) else getChildAtIndex s this (start - 1)) s
       (\<lambda>startNode.
     reading (Some (getChildrenSize s writableSelf)) s (\<lambda>childrenSize.
     reading (if start \<ge> childrenSize then Some (Inr None)
              else getChildAtIndex s this (start + deleteCount)) s (\<lambda>endNode.
     reading (getChildAtIndex s this start) s (\<lambda>next.
     reading (Some (splice_collect (nat deleteCount) s next [])) s (\<lambda>nodesToRemoveKeys.
       let firstNodeToInsert = (case firstNodeKeyToInsert of None \<Rightarrow> None | Some k \<Rightarrow> nodeRef s k);
           lastNodeToInsert = (case lastNodeKeyToInsert of None \<Rightarrow> None | Some k \<Rightarrow> nodeRef s k)
       in
     bind (case (firstNodeToInsert, lastNodeToInsert) of
             (Some firstNode, Some lastNode) \<Rightarrow>
               bind (case startNode of
                       None \<Rightarrow>
                         Some (Return () (updNode s writableSelf
                                (\<lambda>n. n\<lparr>n_first := firstNodeKeyToInsert\<rparr>)))
                     | Some st \<Rightarrow>
                         bind (setNext s st (Some firstNode)) (\<lambda>_ s.
                           setPrev s firstNode (Some st))) (\<lambda>_ s.
                 case endNode of
                   None \<Rightarrow>
                     Some (Return () (updNode s writableSelf
                            (\<lambda>n. n\<lparr>n_last := lastNodeKeyToInsert\<rparr>)))
                 | Some en \<Rightarrow>
                     bind (setNext s lastNode (Some en)) (\<lambda>_ s.
                       setPrev s en (Some lastNode)))
           | _ \<Rightarrow> Some (Return () s)) (\<lambda>_ s.
     reading (getChildrenKeys s writableSelf) s (\<lambda>children.
     bind (Some (Return () (updNode s writableSelf
                   (\<lambda>n. n\<lparr>n_size := int (length children)\<rparr>)))) (\<lambda>_ s.
       if nodesToRemoveKeys \<noteq> [] \<and> selection s \<noteq> None
       then
         let nodesToRemoveKeySet = set nodesToRemoveKeys;
             nodesToInsertKeySet = set nodesToInsertKeys
         in
         bind (splice_movePoint s AnchorPoint nodesToRemoveKeySet nodesToInsertKeySet this
                 nodeBeforeRange nodeAfterRange) (\<lambda>_ s.
         bind (splice_movePoint s FocusPoint nodesToRemoveKeySet nodesToInsertKeySet this
                 nodeBeforeRange nodeAfterRange) (\<lambda>_ s.
         bind (forEach nodesToRemoveKeys (\<lambda>key s.
                 case getNodeByKey s key of
                   None \<Rightarrow> Some (Return () s)
                 | Some _ \<Rightarrow>
                     bind (Some (getWritable s key)) (\<lambda>writableNodeToRemove s.
                       Some (Return () (updNode s writableNodeToRemove
                              (\<lambda>n. n\<lparr>n_parent := None\<rparr>))))) s) (\<lambda>_ s.
         bind (if n_size (deref s writableSelf) = 0 \<and> \<not> n_canBeEmpty (deref s this)
                    \<and> \<not> isRootNode (deref s this)
               then remove c s this False
               else Some (Return () s)) (\<lambda>_ s.
           Some (Return writableSelf s)))))
       else Some (Return writableSelf s)))))))))))))))))"

subsection \<open>LexicalNode: replace, insertAfter, insertBefore\<close>

definition replace :: "Collaborators \<Rightarrow> EditorState \<Rightarrow> NodeKey \<Rightarrow> NodeKey \<Rightarrow> NodeKey outcome option" where
  "replace c s this replaceWith =
     bind (Some (errorOnReadOnly s)) (\<lambda>_ s.
       let toReplaceKey = this
       in
     bind (Some (getWritable s replaceWith)) (\<lambda>writableReplaceWith s.
     bind (removeFromParent s writableReplaceWith) (\<lambda>_ s.
     reading (Some (getParentOrThrow s this)) s (\<lambda>newParent.
     bind (Some (getWritable s newParent)) (\<lambda>writableParent s.
     reading (getIndexWithinParent s this) s (\<lambda>index.
       let newKey = writableReplaceWith
       in if index = - 1 then Some (Throw (Invariant ''Node is not a child of its parent'') s)
          else
     bind (removeNode c s this False False) (\<lambda>_ s.
     reading (Some (getPreviousSibling s this)) s (\<lambda>prevSibling.
     reading (Some (getNextSibling s this)) s (\<lambda>nextSibling.
     bind (case prevSibling of
             Some prev \<Rightarrow>
               bind (setNext s prev (Some newKey)) (\<lambda>_ s. setPrev s replaceWith (Some prev))
           | None \<Rightarrow>
               Some (Return () (updNode s writableParent (\<lambda>n. n\<lparr>n_first := Some newKey\<rparr>)))) (\<lambda>_ s.
     bind (case nextSibling of
             Some next \<Rightarrow>
               bind (setPrev s next (Some newKey)) (\<lambda>_ s. setNext s replaceWith (Some next))
           | None \<Rightarrow>
               Some (Return () (updNode s writableParent (\<lambda>n. n\<lparr>n_last := Some newKey\<rparr>)))) (\<lambda>_ s.
     bind (Some (Return () (updNode s writableReplaceWith
                   (\<lambda>n. n\<lparr>n_parent := Some newParent\<rparr>)))) (\<lambda>_ s.
     bind (case selection s of
             Some sel \<Rightarrow>
               bind (if p_key (anchor sel) = toReplaceKey
                     then c_moveSelectionPointToEnd c AnchorPoint writableReplaceWith s
                     else Some (Return () s)) (\<lambda>_ s.
                 case selection s of
                   Some sel' \<Rightarrow>
                     if p_key (focus sel') = toReplaceKey
                     then c_moveSelectionPointToEnd c FocusPoint writableReplaceWith s
                     else Some (Return () s)
                 | None \<Rightarrow> Some (Return () s))
           | None \<Rightarrow> Some (Return () s)) (\<lambda>_ s.
     bind (if compositionKey s = Some toReplaceKey then c_setCompositionKey c newKey s
           else Some (Return () s)) (\<lambda>_ s.
       Some (Return writableReplaceWith s)))))))))))))))"

definition insertAfter ::
  "Collaborators \<Rightarrow> EditorState \<Rightarrow> NodeKey \<Rightarrow> NodeKey \<Rightarrow> NodeKey outcome option" where
  "insertAfter c s this nodeToInsert =
     bind (Some (errorOnReadOnly s)) (\<lambda>_ s.
     bind (Some (getWritable s this)) (\<lambda>writableSelf s.
     bind (Some (getWritable s nodeToInsert)) (\<lambda>writableNodeToInsert s.
     reading (Some (getParent s writableNodeToInsert)) s (\<lambda>oldParent.
       let isRange = (selection s \<noteq> None)
       in
     reading (getIndexWithinParent s nodeToInsert) s (\<lambda>oldIndex.
     bind (case oldParent of
             Some oldP \<Rightarrow>
               bind (removeFromParent s writableNodeToInsert) (\<lambda>_ s.
                 case selection s of
                   Some sel \<Rightarrow>
                     let oldParentKey = oldP
                     in Some (Return
                          (p_type (anchor sel) = ElementPoint \<and> p_key (anchor sel) = oldParentKey
                             \<and> p_offset (anchor sel) = oldIndex + 1,
                           p_type (focus sel) = ElementPoint \<and> p_key (focus sel) = oldParentKey
                             \<and> p_offset (focus sel) = oldIndex + 1) s)
                 | None \<Rightarrow> Some (Return (False, False) s))
           | None \<Rightarrow> Some (Return (False, False) s)) (\<lambda>onNode s.
     reading (Some (getParentOrThrow s this)) s (\<lambda>parent.
     bind (Some (getWritable s parent)) (\<lambda>writableParent s.
       let insertKey = writableNodeToInsert
       in
     bind (Some (Return () (updNode s writableNodeToInsert
                   (\<lambda>n. n\<lparr>n_parent := n_parent (deref s writableSelf)\<rparr>)))) (\<lambda>_ s.
     reading (getIndexWithinParent s this) s (\<lambda>index.
       if index = - 1 then Some (Throw (Invariant ''Node is not a child of its parent'') s)
       else
     reading (Some (getNextSibling s this)) s (\<lambda>nextSibling.
     bind (case nextSibling of
             Some next \<Rightarrow>
               bind (setPrev s next (Some insertKey)) (\<lambda>_ s. setNext s nodeToInsert (Some next))
           | None \<Rightarrow>
               Some (Return () (updNode s writableParent (\<lambda>n. n\<lparr>n_last := Some insertKey\<rparr>)))) (\<lambda>_ s.
     bind (setNext s this (Some insertKey)) (\<lambda>_ s.
     bind (setPrev s nodeToInsert (Some writableSelf)) (\<lambda>_ s.
     bind (Some (Return () (updNode s writableParent (\<lambda>n. n\<lparr>n_size := n_size n + 1\<rparr>)))) (\<lambda>_ s.
     bind (if isRange
           then bind (c_updateElementSelection c writableParent (index + 1) 1 s) (\<lambda>_ s.
                  let writableParentKey = writableParent;
                      s1 = (if fst onNode
                            then setPoint AnchorPoint writableParentKey (index + 2) ElementPoint s
                            else s);
                      s2 = (if snd onNode
                            then setPoint FocusPoint writableParentKey (index + 2) ElementPoint s1
                            else s1)
                  in Some (Return () s2))
           else Some (Return () s)) (\<lambda>_ s.
       Some (Return nodeToInsert s)))))))))))))))))"

definition insertBefore ::
  "Collaborators \<Rightarrow> EditorState \<Rightarrow> NodeKey \<Rightarrow> NodeKey \<Rightarrow> NodeKey outcome option" where
  "insertBefore c s this nodeToInsert =
     bind (Some (errorOnReadOnly s)) (\<lambda>_ s.
     bind (Some (getWritable s this)) (\<lambda>writableSelf s.
     bind (Some (getWritable s nodeToInsert)) (\<lambda>writableNodeToInsert s.
     bind (removeFromParent s writableNodeToInsert) (\<lambda>_ s.
     reading (Some (getParentOrThrow s this)) s (\<lambda>parent.
     bind (Some (getWritable s parent)) (\<lambda>writableParent s.
       let insertKey = writableNodeToInsert
       in
     bind (Some (Return () (updNode s writableNodeToInsert
                   (\<lambda>n. n\<lparr>n_parent := n_parent (deref s writableSelf)\<rparr>)))) (\<lambda>_ s.
     reading (getIndexWithinParent s this) s (\<lambda>index.
       if index = - 1 then Some (Throw (Invariant ''Node is not a child of its parent'') s)
       else
     reading (Some (getPreviousSibling s this)) s (\<lambda>prevSibling.
     bind (case prevSibling of
             Some prev \<Rightarrow>
               bind (setNext s prev (Some insertKey)) (\<lambda>_ s. setPrev s nodeToInsert (Some prev))
           | None \<Rightarrow>
               Some (Return () (updNode s writableParent (\<lambda>n. n\<lparr>n_first := Some insertKey\<rparr>)))) (\<lambda>_ s.
     bind (setPrev s this (Some insertKey)) (\<lambda>_ s.
     bind (setNext s nodeToInsert (Some writableSelf)) (\<lambda>_ s.
     bind (Some (Return () (updNode s writableParent (\<lambda>n. n\<lparr>n_size := n_size n + 1\<rparr>)))) (\<lambda>_ s.
     bind (if selection s \<noteq> None
           then c_updateElementSelection c writableParent index 1 s
           else Some (Return () s)) (\<lambda>_ s.
       Some (Return nodeToInsert s)))))))))))))))"

subsection \<open>More example documents\<close>

text \<open>Collaborators that return at once and leave the state as it is.\<close>

definition inertCollaborators :: Collaborators where
  "inertCollaborators =
     \<lparr>c_updateElementSelection = (\<lambda>_ _ _ s. Some (Return () s)),
      c_moveSelectionPointToEnd = (\<lambda>_ _ s. Some (Return () s)),
      c_textSelect = (\<lambda>_ _ _ s. Some (Return () s)),
      c_internalMakeRangeSelection = (\<lambda>_ _ _ _ _ _ s. Some (Return () s)),
      c_setCompositionKey = (\<lambda>_ s. Some (Return () s)),
      c_elementTypeToFormat = (\<lambda>_. 0)\<rparr>"

text \<open>
  An element \<open>P\<close> with the text children \<open>A, B, C, D\<close>, and three detached text nodes
  \<open>X, Y, Z\<close>.
\<close>

definition doc4 :: EditorState where
  "doc4 = withObjects [''P'', ''A'', ''B'', ''C'', ''D'', ''X'', ''Y'', ''Z'']
     (emptyState\<lparr>nodeMap :=
     [''P'' \<mapsto> (newNode ElementClass)\<lparr>n_first := Some ''A'', n_last := Some ''D'', n_size := 4\<rparr>,
      ''A'' \<mapsto> (newNode TextClass)\<lparr>n_parent := Some ''P'', n_next := Some ''B''\<rparr>,
      ''B'' \<mapsto> (newNode TextClass)\<lparr>n_parent := Some ''P'', n_prev := Some ''A'', n_next := Some ''C''\<rparr>,
      ''C'' \<mapsto> (newNode TextClass)\<lparr>n_parent := Some ''P'', n_prev := Some ''B'', n_next := Some ''D''\<rparr>,
      ''D'' \<mapsto> (newNode TextClass)\<lparr>n_parent := Some ''P'', n_prev := Some ''C''\<rparr>,
      ''X'' \<mapsto> newNode TextClass, ''Y'' \<mapsto> newNode TextClass, ''Z'' \<mapsto> newNode TextClass]\<rparr>)"

text \<open>The state that an operation leaves, whether it returned or threw.\<close>

fun finalState :: "'a outcome option \<Rightarrow> EditorState" where
  "finalState (Some r) = stateOf r"
| "finalState None = emptyState"

fun returned :: "'a outcome option \<Rightarrow> bool" where
  "returned (Some (Return _ _)) = True"
| "returned _ = False"

subsection \<open>LexicalNode.isAttached\<close>

partial_function (option) isAttached_loop :: "EditorState \<Rightarrow> NodeKey option \<Rightarrow> bool option" where
  "isAttached_loop s nodeKey =
     (case nodeKey of
        None \<Rightarrow> Some False
      | Some k \<Rightarrow>
          if k = ''root'' then Some True
          else (case getNodeByKey s k of
                  None \<Rightarrow> Some False
                | Some node \<Rightarrow> isAttached_loop s (n_parent node)))"

definition isAttached :: "EditorState \<Rightarrow> NodeKey \<Rightarrow> bool option" where
  "isAttached s this = isAttached_loop s (Some this)"

subsection \<open>The structural integrity of a child list, as the spec states it\<close>

text \<open>
  The walk from a child along \<^verbatim>\<open>prev\<close>, in the manner of \<^verbatim>\<open>forEachChild\<close>.
\<close>

partial_function (option) walkPrev ::
  "EditorState \<Rightarrow> NodeKey option \<Rightarrow> NodeKey list \<Rightarrow> NodeKey list option" where
  "walkPrev s prev keys =
     (case prev of
        None \<Rightarrow> Some keys
      | Some k \<Rightarrow>
          (case getNodeByKey s k of
             Some childNode \<Rightarrow> walkPrev s (n_prev childNode) (keys @ [k])
           | None \<Rightarrow> Some keys))"

text \<open>
  Section 8, structural integrity: walking the children of \<open>e\<close> from \<^verbatim>\<open>firstChild\<close> via
  \<^verbatim>\<open>next\<close> visits exactly \<^verbatim>\<open>childCount\<close> nodes and ends at \<^verbatim>\<open>lastChild\<close>, and the walk
  from \<^verbatim>\<open>lastChild\<close> via \<^verbatim>\<open>prev\<close> gives the reverse sequence.
\<close>

definition structuralIntegrity :: "EditorState \<Rightarrow> NodeKey \<Rightarrow> bool" where
  "structuralIntegrity s e =
     (case nodeMap s e of
        None \<Rightarrow> False
      | Some n \<Rightarrow>
          (case forEachChild_keys s (n_first n) [] of
             None \<Rightarrow> False
           | Some keys \<Rightarrow>
               int (length keys) = n_size n
               \<and> n_last n = (if keys = [] then None else Some (last keys))
               \<and> walkPrev s (n_last n) [] = Some (rev keys)))"

text \<open>
  The root with one element \<open>P\<close> that holds the texts \<open>A\<close> and \<open>B\<close>; the selection is a
  caret at the start of \<open>A\<close>.
\<close>

definition doc5 :: EditorState where
  "doc5 = withObjects [''root'', ''P'', ''A'', ''B'']
     (emptyState\<lparr>nodeMap :=
     [''root'' \<mapsto> (newNode RootClass)\<lparr>n_first := Some ''P'', n_last := Some ''P'', n_size := 1\<rparr>,
      ''P'' \<mapsto> (newNode ElementClass)\<lparr>n_parent := Some ''root'',
                n_first := Some ''A'', n_last := Some ''B'', n_size := 2\<rparr>,
      ''A'' \<mapsto> (newNode TextClass)\<lparr>n_parent := Some ''P'', n_next := Some ''B'', n_textSize := 1\<rparr>,
      ''B'' \<mapsto> (newNode TextClass)\<lparr>n_parent := Some ''P'', n_prev := Some ''A'', n_textSize := 1\<rparr>],
     selection := Some \<lparr>anchor = \<lparr>p_key = ''A'', p_offset = 0, p_type = TextPoint\<rparr>,
                        focus = \<lparr>p_key = ''A'', p_offset = 0, p_type = TextPoint\<rparr>,
                        sel_dirty = False\<rparr>\<rparr>)"

subsection \<open>The cleanup chain of a removal, as the spec states it\<close>

text \<open>
  Section 4.2, \<^verbatim>\<open>remove\<close>: the node is detached; if its parent becomes empty, is not the
  root, is not protected by \<^verbatim>\<open>preserveEmptyParent\<close> and its variant requires
  non-emptiness, the parent is removed too, recursively.

  \<open>cleanupChain s preserve ks kept\<close> reads this off the state \<open>s\<close> before the removal:
  \<open>ks\<close> is the node to remove followed by the ancestors that go with it, and \<open>kept\<close> is
  the first ancestor that stays. \<open>linked\<close>: the node has the given parent and is found
  among the children of that parent. \<open>goes\<close>: the parent is not the root, must not be
  empty and has exactly one child. \<open>stays\<close>: the parent is protected, or is the root, or
  may be empty, or keeps a child. \<open>onlyChild\<close>: the node has no siblings, as the one
  child of a parent with child count 1.
\<close>

definition linked :: "EditorState \<Rightarrow> NodeKey \<Rightarrow> NodeKey \<Rightarrow> bool" where
  "linked s n p =
     (getParent s n = Inr (Some p)
      \<and> (case getIndexWithinParent s n of Some (Inr i) \<Rightarrow> i \<noteq> - 1 | _ \<Rightarrow> False))"

definition goes :: "EditorState \<Rightarrow> NodeKey \<Rightarrow> bool" where
  "goes s p =
     (case nodeMap s p of
        Some pn \<Rightarrow> \<not> isRootNode pn \<and> \<not> n_canBeEmpty pn \<and> n_size pn = 1
      | None \<Rightarrow> False)"

definition stays :: "EditorState \<Rightarrow> bool \<Rightarrow> NodeKey \<Rightarrow> bool" where
  "stays s preserve p =
     (case nodeMap s p of
        Some pn \<Rightarrow> preserve \<or> isRootNode pn \<or> n_canBeEmpty pn \<or> n_size pn \<noteq> 1
      | None \<Rightarrow> False)"

definition onlyChild :: "EditorState \<Rightarrow> NodeKey \<Rightarrow> bool" where
  "onlyChild s n =
     (case nodeMap s n of
        Some nn \<Rightarrow> n_prev nn = None \<and> n_next nn = None
      | None \<Rightarrow> False)"

fun cleanupChain :: "EditorState \<Rightarrow> bool \<Rightarrow> NodeKey list \<Rightarrow> NodeKey \<Rightarrow> bool" where
  "cleanupChain s preserve [] kept = False"
| "cleanupChain s preserve [n] kept =
     (linked s n kept \<and> n \<noteq> kept \<and> stays s preserve kept
      \<and> (getChildrenSize s kept = Inr 1 \<longrightarrow> onlyChild s n))"
| "cleanupChain s preserve (n # p # ks) kept =
     (linked s n p \<and> onlyChild s n \<and> \<not> preserve \<and> goes s p
      \<and> n \<notin> set (p # ks) \<and> n \<noteq> kept
      \<and> cleanupChain s False (p # ks) kept)"

text \<open>
  What the removal needs of \<^verbatim>\<open>$updateElementSelectionOnCreateDeleteNode\<close> and of
  \<^verbatim>\<open>internalMakeRangeSelection\<close>: they return and touch nothing but the selection, and
  the former leaves a range selection a range selection.
\<close>

definition selectionOnly :: "Collaborators \<Rightarrow> bool" where
  "selectionOnly c =
     ((\<forall>parent index times s. \<exists>sel.
         c_updateElementSelection c parent index times s = Some (Return () (s\<lparr>selection := sel\<rparr>))
         \<and> (selection s \<noteq> None \<longrightarrow> sel \<noteq> None))
      \<and> (\<forall>ak ao fk fo at ft s. \<exists>sel.
         c_internalMakeRangeSelection c ak ao fk fo at ft s = Some (Return () (s\<lparr>selection := sel\<rparr>))))"

text \<open>The caret at the end of an empty element.\<close>

definition caretAt :: "NodeKey \<Rightarrow> int \<Rightarrow> RangeSelection" where
  "caretAt key offset =
     \<lparr>anchor = \<lparr>p_key = key, p_offset = offset, p_type = ElementPoint\<rparr>,
      focus = \<lparr>p_key = key, p_offset = offset, p_type = ElementPoint\<rparr>,
      sel_dirty = True\<rparr>"

text \<open>
  The root with the element \<open>E\<close>, which holds the element \<open>F\<close>, which holds the text
  \<open>T\<close>; \<open>E\<close> and \<open>F\<close> must not be empty. The selection is a caret in \<open>T\<close>.
\<close>

definition doc6 :: EditorState where
  "doc6 = withObjects [''root'', ''E'', ''F'', ''T'']
     (emptyState\<lparr>nodeMap :=
     [''root'' \<mapsto> (newNode RootClass)\<lparr>n_first := Some ''E'', n_last := Some ''E'', n_size := 1\<rparr>,
      ''E'' \<mapsto> (newNode ElementClass)\<lparr>n_parent := Some ''root'', n_canBeEmpty := False,
                n_first := Some ''F'', n_last := Some ''F'', n_size := 1\<rparr>,
      ''F'' \<mapsto> (newNode ElementClass)\<lparr>n_parent := Some ''E'', n_canBeEmpty := False,
                n_first := Some ''T'', n_last := Some ''T'', n_size := 1\<rparr>,
      ''T'' \<mapsto> (newNode TextClass)\<lparr>n_parent := Some ''F'', n_textSize := 1\<rparr>],
     selection := Some \<lparr>anchor = \<lparr>p_key = ''T'', p_offset = 0, p_type = TextPoint\<rparr>,
                        focus = \<lparr>p_key = ''T'', p_offset = 0, p_type = TextPoint\<rparr>,
                        sel_dirty = False\<rparr>\<rparr>)"

subsection \<open>The result of a removal, as the spec states it\<close>

text \<open>
  \<open>detached n p pr nx k x\<close> is the node \<open>x\<close> stored under \<open>k\<close> after \<open>n\<close> has been
  unlinked from its parent \<open>p\<close>, where \<open>pr\<close> and \<open>nx\<close> are the siblings before and
  after \<open>n\<close>: sections 3 and 4.2 of the spec.
\<close>

definition detached :: "NodeKey \<Rightarrow> NodeKey \<Rightarrow> NodeKey option \<Rightarrow> NodeKey option \<Rightarrow> NodeKey \<Rightarrow> LexicalNode \<Rightarrow> LexicalNode" where
  "detached n p pr nx k x =
     x\<lparr>n_parent := (if k = n then None else n_parent x),
       n_next := (if k = n then None else if Some k = pr then nx else n_next x),
       n_prev := (if k = n then None else if Some k = nx then pr else n_prev x),
       n_first := (if k = p \<and> pr = None then nx else n_first x),
       n_last := (if k = p \<and> nx = None then pr else n_last x),
       n_size := (if k = p then n_size x - 1 else n_size x)\<rparr>"

text \<open>
  \<open>rootEmptied s kept\<close>: the ancestor that stays is the root and loses its only child.
  \<open>removalResult s ks kept s'\<close>: the state \<open>s'\<close> after the nodes \<open>ks\<close> were removed from
  \<open>s\<close>: the same nodes exist, with their classes; exactly the nodes of \<open>ks\<close> have lost
  their parent; \<open>kept\<close> has one child less; a range selection is still one, and it is
  the caret at offset 0 of the root when the root was emptied.
\<close>

definition rootEmptied :: "EditorState \<Rightarrow> NodeKey \<Rightarrow> bool" where
  "rootEmptied s kept =
     (case nodeMap s kept of Some x \<Rightarrow> isRootNode x \<and> n_size x = 1 | None \<Rightarrow> False)"

definition removalResult :: "EditorState \<Rightarrow> NodeKey list \<Rightarrow> NodeKey \<Rightarrow> EditorState \<Rightarrow> bool" where
  "removalResult s ks kept s' =
     (readOnly s' = readOnly s
      \<and> (selection s \<noteq> None \<longrightarrow> selection s' \<noteq> None)
      \<and> (\<forall>k. case nodeMap s k of
                None \<Rightarrow> nodeMap s' k = None
              | Some x \<Rightarrow>
                  (case nodeMap s' k of
                     None \<Rightarrow> False
                   | Some x' \<Rightarrow>
                       n_class x' = n_class x \<and> n_canBeEmpty x' = n_canBeEmpty x
                       \<and> n_parent x' = (if k \<in> set ks then None else n_parent x)
                       \<and> (k = kept \<longrightarrow> n_size x' = n_size x - 1)))
      \<and> (rootEmptied s kept \<and> selection s \<noteq> None \<longrightarrow> selection s' = Some (caretAt kept 0)))"

section \<open>Properties\<close>

subsection \<open>Evaluation\<close>

lemma bind_simps [simp]:
  "bind None f = None"
  "bind (Some (Throw e s)) f = Some (Throw e s)"
  "bind (Some (Return a s)) f = f a s"
  by (simp_all add: bind_def)

lemma reading_simps [simp]:
  "reading None s g = None"
  "reading (Some (Inl e)) s g = Some (Throw e s)"
  "reading (Some (Inr a)) s g = g a"
  by (simp_all add: reading_def)

lemma bind_cong_weak [cong]: "m = m' \<Longrightarrow> bind m f = bind m' f"
  by simp

lemma reading_cong_weak [cong]: "r = r' \<Longrightarrow> s = s' \<Longrightarrow> reading r s g = reading r' s' g"
  by simp

lemmas read_defs =
  getNodeByKey_def nodeRef_def getLatest_def getParent_def getParentOrThrow_def
  getPreviousSibling_def getNextSibling_def getFirstChild_def getLastChild_def
  getChildrenSize_def isEmpty_def getChildrenKeys_def getChildAtIndex_def
  getIndexWithinParent_def

lemmas loop_simps =
  forEachChild_keys.simps getChildAtIndex_loop.simps getIndexWithinParent_loop.simps

lemmas fixture_defs = newNode_def emptyState_def withObjects_def doc2_def

subsection \<open>getWritable\<close>

text \<open>The clone that \<^verbatim>\<open>getWritable\<close> builds carries every field of the latest node.\<close>

lemma clone_restore:
  "(if isElementNode n \<and> isElementNode ((clone n)\<lparr>n_parent := n_parent n, n_next := n_next n, n_prev := n_prev n\<rparr>)
    then (clone n)\<lparr>n_parent := n_parent n, n_next := n_next n, n_prev := n_prev n\<rparr>
           \<lparr>n_indent := n_indent n, n_format := n_format n, n_dir := n_dir n,
            n_first := n_first n, n_last := n_last n, n_size := n_size n\<rparr>
    else if isTextNode n \<and> isTextNode ((clone n)\<lparr>n_parent := n_parent n, n_next := n_next n, n_prev := n_prev n\<rparr>)
    then (clone n)\<lparr>n_parent := n_parent n, n_next := n_next n, n_prev := n_prev n\<rparr>\<lparr>n_format := n_format n\<rparr>
    else (clone n)\<lparr>n_parent := n_parent n, n_next := n_next n, n_prev := n_prev n\<rparr>) = n"
  by (simp add: clone_def isElementNode_def isTextNode_def Let_def)

lemma getWritableObject_readOnly:
  "readOnly s \<Longrightarrow> getWritableObject s key = Throw ReadOnlyViolation s"
  by (simp add: getWritableObject_def errorOnReadOnly_def)

lemma getWritableObject_missing:
  "\<not> readOnly s \<Longrightarrow> nodeMap s key = None \<Longrightarrow>
   getWritableObject s key = Throw (Invariant ''getLatest: node not found'') s"
  by (simp add: getWritableObject_def errorOnReadOnly_def getLatest_def getNodeByKey_def)

lemma getWritableObject_open:
  assumes "\<not> readOnly s" "nodeMap s key = Some n"
  shows "getWritableObject s key =
     (if key \<in> cloneNotNeeded s then Return (objectOf s key) (internalMarkNodeAsDirty s key n)
      else Return (nextObject s) (cloned s key n))"
  using assms
  apply (simp add: getWritableObject_def errorOnReadOnly_def getLatest_def getNodeByKey_def Let_def
      clone_restore newObject_def nodeMapSet_def cloned_def)
  apply (simp add: internalMarkNodeAsDirty_def fun_upd_idem)
  done

lemma getWritable_readOnly: "readOnly s \<Longrightarrow> getWritable s key = Throw ReadOnlyViolation s"
  by (simp add: getWritable_def getWritableObject_readOnly)

lemma getWritable_missing:
  "\<not> readOnly s \<Longrightarrow> nodeMap s key = None \<Longrightarrow>
   getWritable s key = Throw (Invariant ''getLatest: node not found'') s"
  by (simp add: getWritable_def getWritableObject_missing)

lemma getWritable_open:
  assumes "\<not> readOnly s" "nodeMap s key = Some n"
  shows "getWritable s key = Return key
     (if key \<in> cloneNotNeeded s then internalMarkNodeAsDirty s key n else cloned s key n)"
  by (simp add: getWritable_def getWritableObject_open [OF assms])

text \<open>
  Claim C6. Copy-on-write clones each node at most once per transaction. \<open>obj\<close> is the
  object that a successful \<^verbatim>\<open>getWritable\<close> on \<open>key\<close> returns, in a transaction whose clone
  log has no duplicates and whose objects were all allocated.

  \<^item> The returned object is the one that the pending node map holds under \<open>key\<close>
    afterwards, with the fields of the latest node, and \<open>key\<close> is in \<^verbatim>\<open>_cloneNotNeeded\<close>.
  \<^item> The first call (\<open>key\<close> not yet in \<^verbatim>\<open>_cloneNotNeeded\<close>) clones: the returned object
    is a new one, different from every object of the node map before the call, the object
    that was under \<open>key\<close> included; it is the only allocation, and the only entry of the
    node map that holds another object than before is \<open>key\<close>.
  \<^item> A later call (\<open>key\<close> already in \<^verbatim>\<open>_cloneNotNeeded\<close>) does not clone: it returns
    the object that the node map holds, allocates nothing and leaves every entry alone.
  \<^item> Another \<^verbatim>\<open>getWritable\<close> on \<open>key\<close> right after returns the identical object and
    changes nothing, so the clone log stays free of duplicates.
\<close>

theorem getWritable_clones_once:
  assumes "cloneOnce s" and "getWritableObject s key = Return obj s'"
  shows "cloneOnce s' \<and> key \<in> cloneNotNeeded s' \<and> cloneNotNeeded s \<subseteq> cloneNotNeeded s'
       \<and> objectOf s' key = obj
       \<and> nodeMap s' = nodeMap s
       \<and> (if key \<in> cloneNotNeeded s
          then obj = objectOf s key \<and> objectOf s' = objectOf s
             \<and> nextObject s' = nextObject s \<and> cloneLog s' = cloneLog s
          else obj = nextObject s \<and> (\<forall>k. objectOf s k \<noteq> obj)
             \<and> objectOf s' = (objectOf s)(key := obj)
             \<and> nextObject s' = Suc (nextObject s) \<and> cloneLog s' = cloneLog s @ [key])
       \<and> getWritableObject s' key = Return obj s'"
proof -
  from assms(2) have open_tx: "\<not> readOnly s"
    by (auto simp: getWritableObject_readOnly)
  from assms(2) open_tx obtain n where n: "nodeMap s key = Some n"
    by (cases "nodeMap s key") (auto simp: getWritableObject_missing)
  note first = getWritableObject_open [OF open_tx n]
  from assms(1) have alloc: "\<And>k. objectOf s k < nextObject s"
    by (simp add: cloneOnce_def)
  show ?thesis
  proof (cases "key \<in> cloneNotNeeded s")
    case True
    with assms(2) first have obj: "obj = objectOf s key"
      and s': "s' = internalMarkNodeAsDirty s key n" by auto
    have ro: "\<not> readOnly s'" and nm: "nodeMap s' key = Some n" and cn: "key \<in> cloneNotNeeded s'"
      and ob: "objectOf s' key = obj"
      using open_tx n True by (simp_all add: s' obj internalMarkNodeAsDirty_def)
    have again: "getWritableObject s' key = Return obj s'"
      using getWritableObject_open [OF ro nm] cn ob
      by (simp add: s' internalMarkNodeAsDirty_def insert_absorb)
    from assms(1) True again show ?thesis
      by (simp add: obj s' cloneOnce_def internalMarkNodeAsDirty_def)
  next
    case False
    with assms(2) first have obj: "obj = nextObject s"
      and s': "s' = cloned s key n" by auto
    have ro: "\<not> readOnly s'" and nm: "nodeMap s' key = Some n" and cn: "key \<in> cloneNotNeeded s'"
      and ob: "objectOf s' key = obj"
      using open_tx n by (simp_all add: s' obj cloned_def internalMarkNodeAsDirty_def)
    have again: "getWritableObject s' key = Return obj s'"
      using getWritableObject_open [OF ro nm] cn ob
      by (simp add: s' cloned_def internalMarkNodeAsDirty_def insert_absorb)
    from assms(1) False have fresh_log: "key \<notin> set (cloneLog s)"
      by (auto simp: cloneOnce_def)
    have fresh: "\<forall>k. objectOf s k \<noteq> obj"
    proof
      fix k
      from alloc [of k] show "objectOf s k \<noteq> obj"
        by (simp add: obj)
    qed
    have inv: "cloneOnce s'"
      using assms(1) fresh_log alloc
      by (auto simp: s' cloneOnce_def cloned_def internalMarkNodeAsDirty_def less_Suc_eq)
    have rest: "key \<in> cloneNotNeeded s' \<and> cloneNotNeeded s \<subseteq> cloneNotNeeded s'
        \<and> nodeMap s' = nodeMap s \<and> objectOf s' = (objectOf s)(key := obj)
        \<and> nextObject s' = Suc (nextObject s) \<and> cloneLog s' = cloneLog s @ [key]"
      by (auto simp: s' obj cloned_def internalMarkNodeAsDirty_def)
    from inv rest fresh ob again False obj show ?thesis
      by simp
  qed
qed

theorem getWritable_clones_once_witness:
  "cloneOnce doc2
   \<and> objectOf doc2 ''A'' = 2
   \<and> getWritableObject doc2 ''A'' = Return 4 (stateOf (getWritableObject doc2 ''A''))
   \<and> objectOf (stateOf (getWritableObject doc2 ''A'')) ''A'' = 4
   \<and> objectOf (stateOf (getWritableObject doc2 ''A'')) ''B'' = objectOf doc2 ''B''
   \<and> nodeMap (stateOf (getWritableObject doc2 ''A'')) = nodeMap doc2
   \<and> cloneLog (stateOf (getWritableObject doc2 ''A'')) = [''A'']
   \<and> nextObject (stateOf (getWritableObject doc2 ''A'')) = 5
   \<and> getWritableObject (stateOf (getWritableObject doc2 ''A'')) ''A''
       = Return 4 (stateOf (getWritableObject doc2 ''A''))"
proof -
  have c: "cloneOnce doc2"
    by (simp add: cloneOnce_def fixture_defs)
  have ro: "\<not> readOnly doc2" and nm: "nodeMap doc2 ''A'' \<noteq> None" and cn: "''A'' \<notin> cloneNotNeeded doc2"
    and lg: "cloneLog doc2 = []" and nx: "nextObject doc2 = 4"
    and oa: "objectOf doc2 ''A'' = 2" and ob: "objectOf doc2 ''B'' = 1"
    by (simp_all add: fixture_defs)
  from nm obtain n where n: "nodeMap doc2 ''A'' = Some n" by blast
  have g: "getWritableObject doc2 ''A'' = Return 4 (stateOf (getWritableObject doc2 ''A''))"
    by (simp add: getWritableObject_open [OF ro n] cn nx)
  from getWritable_clones_once [OF c g] c g cn lg nx oa ob show ?thesis
    by simp
qed

text \<open>
  Claim C2. \<^verbatim>\<open>getChildAtIndex\<close> is meant to be a 0-based lookup in the child list. On the
  element \<open>P\<close> with children \<open>A, B\<close> the code returns \<^verbatim>\<open>null\<close> for index 1 (the claim:
  \<open>B\<close>) and the first child \<open>A\<close> for index -1 (the claim: \<^verbatim>\<open>null\<close>), because the counter
  of the loop stays 0.
\<close>

theorem getChildAtIndex_ignores_index:
  "getChildrenKeys doc2 ''P'' = Some (Inr [''A'', ''B''])
   \<and> getChildAtIndex doc2 ''P'' 0 = Some (Inr (Some ''A''))
   \<and> getChildAtIndex doc2 ''P'' 1 = Some (Inr None)
   \<and> getChildAtIndex doc2 ''P'' (- 1) = Some (Inr (Some ''A''))"
  by (simp add: read_defs loop_simps fixture_defs)

lemma andThen_simps [simp]:
  "andThen None f = None"
  "andThen (Some (Inl e)) f = Some (Inl e)"
  "andThen (Some (Inr a)) f = f a"
  by (simp_all add: andThen_def)

lemma andThen_cong_weak [cong]: "r = r' \<Longrightarrow> andThen r f = andThen r' f"
  by simp

lemmas order_defs = getParents_def isParentOf_def getCommonAncestor_def isBefore_def deref_def
lemmas order_loops = getParents_loop.simps isParentOf_loop.simps isBefore_loop.simps

subsection \<open>Document order\<close>

lemma parentChain_fun: "parentChain s k ks \<Longrightarrow> parentChain s k ks' \<Longrightarrow> ks = ks'"
proof (induction arbitrary: ks' rule: parentChain.induct)
  case (top s k)
  then show ?case by (auto elim: parentChain.cases)
next
  case (up s k p ps)
  from up.prems up.hyps show ?case
    by (auto elim!: parentChain.cases [of s k ks'] dest: up.IH)
qed

lemma parentChain_suffix: "parentChain s k (xs @ p # ys) \<Longrightarrow> parentChain s p ys"
proof (induction xs arbitrary: k)
  case Nil
  then show ?case by (auto elim: parentChain.cases)
next
  case (Cons x xs)
  from Cons.prems have "parentChain s x (xs @ p # ys)"
    by (auto elim: parentChain.cases)
  then show ?case by (rule Cons.IH)
qed

lemma parentChain_not_self: assumes "parentChain s k ks" shows "k \<notin> set ks"
proof
  assume "k \<in> set ks"
  then obtain xs ys where ks: "ks = xs @ k # ys" by (auto simp: in_set_conv_decomp)
  with assms have "parentChain s k ys" by (auto dest: parentChain_suffix)
  with assms have "ks = ys" by (rule parentChain_fun)
  with ks show False by simp
qed

lemma parentChain_distinct: "parentChain s k ks \<Longrightarrow> distinct (k # ks)"
proof (induction rule: parentChain.induct)
  case (top s k) then show ?case by simp
next
  case (up s k p ps)
  have "parentChain s k (p # ps)" using up.hyps by (rule parentChain.up)
  then have "k \<notin> set (p # ps)" by (rule parentChain_not_self)
  with up.IH show ?case by simp
qed

lemma getParents_loop_chain:
  "parentChain s k ks \<Longrightarrow> getParents_loop s (Some k) acc = Some (Inr (acc @ k # ks))"
proof (induction arbitrary: acc rule: parentChain.induct)
  case (top s k)
  show ?case using top.hyps
    by (subst getParents_loop.simps) (simp add: getParents_loop.simps [of s None])
next
  case (up s k p ps)
  show ?case using up.hyps(1) up.IH [of "acc @ [k]"]
    by (subst getParents_loop.simps) simp
qed

lemma getParents_chain: "parentChain s k ks \<Longrightarrow> getParents s k = Some (Inr ks)"
  by (erule parentChain.cases)
     (simp_all add: getParents_def getParents_loop_chain getParents_loop.simps [of _ None])

lemma isParentOf_loop_chain:
  "parentChain s k ks \<Longrightarrow> isParentOf_loop s key (Some k) = Some (Inr (key \<in> set (k # ks)))"
proof (induction rule: parentChain.induct)
  case (top s k)
  show ?case using top.hyps
    by (subst isParentOf_loop.simps) (auto simp: isParentOf_loop.simps [of s key None])
next
  case (up s k p ps)
  show ?case using up.hyps(1) up.IH
    by (subst isParentOf_loop.simps) auto
qed

lemma isParentOf_chain:
  "parentChain s k ks \<Longrightarrow> isParentOf s key k = Some (Inr (key \<in> set ks))"
  by (frule parentChain_not_self) (auto simp: isParentOf_def isParentOf_loop_chain)

lemma isBefore_loop_chain:
  "parentChain s a (as1 @ c # cs) \<Longrightarrow> c \<notin> set as1 \<Longrightarrow>
   isBefore_loop s (Some c) a = getIndexWithinParent s (last (a # as1))"
proof (induction as1 arbitrary: a)
  case Nil
  then have "getParent s a = Inr (Some c)" by (auto elim: parentChain.cases)
  then show ?case
    by (subst isBefore_loop.simps) (simp add: getParentOrThrow_def)
next
  case (Cons x xs)
  from Cons.prems(1) have p: "getParent s a = Inr (Some x)" and ch: "parentChain s x (xs @ c # cs)"
    by (auto elim: parentChain.cases)
  from Cons.prems(2) have "x \<noteq> c" "c \<notin> set xs" by auto
  with Cons.IH [OF ch] p show ?case
    by (subst isBefore_loop.simps) (simp add: getParentOrThrow_def)
qed

lemma find_first: "\<forall>x\<in>set xs. \<not> P x \<Longrightarrow> P c \<Longrightarrow> find P (xs @ c # ys) = Some c"
  by (induction xs) auto

lemma getCommonAncestor_chain:
  assumes a: "parentChain s a (as1 @ c # cs)" and b: "parentChain s b (bs1 @ c # cs')"
    and disj: "set (a # as1) \<inter> set (b # bs1) = {}"
  shows "getCommonAncestor s a b = Some (Inr (Some c))"
proof -
  from b have "parentChain s c cs'" by (rule parentChain_suffix)
  moreover from a have "parentChain s c cs" by (rule parentChain_suffix)
  ultimately have cs: "cs' = cs" by (rule parentChain_fun)
  from a have da: "distinct (a # as1 @ c # cs)" by (rule parentChain_distinct)
  let ?A = "if isElementNode (deref s a) then a # as1 @ c # cs else as1 @ c # cs"
  let ?B = "if isElementNode (deref s b) then b # bs1 @ c # cs else bs1 @ c # cs"
  have ne: "?A \<noteq> []" "?B \<noteq> []" by auto
  have la: "last ?A = last (c # cs)" "last ?B = last (c # cs)" by auto
  have inB: "c \<in> set ?B" by auto
  have notB: "\<forall>x\<in>set (a # as1). x \<notin> set ?B"
    using disj da by auto
  have A1: "?A = (if isElementNode (deref s a) then a # as1 else as1) @ c # cs" by simp
  have "find (\<lambda>x. x \<in> set ?B) ?A = Some c"
    unfolding A1 by (rule find_first) (use notB inB in \<open>auto split: if_splits\<close>)
  with ne la show ?thesis
    using getParents_chain [OF a] getParents_chain [OF b]
    by (simp add: getCommonAncestor_def cs Let_def del: last.simps)
qed


text \<open>
  Claim C4, as the code has it. For nodes with a finite chain of ancestors:
  when \<open>b\<close> is an ancestor of \<open>a\<close>, \<^verbatim>\<open>a.isBefore(b)\<close> is true (the descendant is before
  its ancestor); when \<open>a\<close> is an ancestor of \<open>b\<close>, it is false; and when neither is an
  ancestor of the other and \<open>c\<close> is their lowest common ancestor, it compares the
  indices within \<open>c\<close> of the two children of \<open>c\<close> on the chains of \<open>a\<close> and \<open>b\<close>.
\<close>

theorem isBefore_document_order:
  "(parentChain s a as \<and> b \<in> set as \<longrightarrow> isBefore s a b = Some (Inr True))
   \<and> (parentChain s b bs \<and> a \<in> set bs \<longrightarrow> isBefore s a b = Some (Inr False))
   \<and> (parentChain s a (as1 @ c # cs) \<and> parentChain s b (bs1 @ c # cs)
        \<and> set (a # as1) \<inter> set (b # bs1) = {}
        \<and> getIndexWithinParent s (last (a # as1)) = Some (Inr ia)
        \<and> getIndexWithinParent s (last (b # bs1)) = Some (Inr ib)
      \<longrightarrow> isBefore s a b = Some (Inr (ia < ib)))"
proof (intro conjI impI)
  assume "parentChain s a as \<and> b \<in> set as"
  then have a: "parentChain s a as" and "b \<in> set as" by auto
  then show "isBefore s a b = Some (Inr True)"
    by (simp add: isBefore_def isParentOf_chain [OF a])
next
  assume h: "parentChain s b bs \<and> a \<in> set bs"
  then obtain xs ys where bs: "bs = xs @ a # ys"
    by (auto simp: in_set_conv_decomp)
  with h have ca: "parentChain s a ys" by (auto dest: parentChain_suffix)
  from h have "distinct (b # bs)" by (auto dest: parentChain_distinct)
  with bs have "b \<notin> set ys" by auto
  moreover from h have b: "parentChain s b bs" and "a \<in> set bs" by auto
  ultimately show "isBefore s a b = Some (Inr False)"
    by (simp add: isBefore_def isParentOf_chain [OF ca] isParentOf_chain [OF b])
next
  assume h: "parentChain s a (as1 @ c # cs) \<and> parentChain s b (bs1 @ c # cs)
        \<and> set (a # as1) \<inter> set (b # bs1) = {}
        \<and> getIndexWithinParent s (last (a # as1)) = Some (Inr ia)
        \<and> getIndexWithinParent s (last (b # bs1)) = Some (Inr ib)"
  then have a: "parentChain s a (as1 @ c # cs)" and b: "parentChain s b (bs1 @ c # cs)"
    and disj: "set (a # as1) \<inter> set (b # bs1) = {}" by auto
  from a have da: "distinct (a # as1 @ c # cs)" by (rule parentChain_distinct)
  from b have db: "distinct (b # bs1 @ c # cs)" by (rule parentChain_distinct)
  from disj db have nb: "b \<notin> set (as1 @ c # cs)" by auto
  from disj da have na: "a \<notin> set (bs1 @ c # cs)" by auto
  from da have ca: "c \<notin> set as1" by auto
  from db have cb: "c \<notin> set bs1" by auto
  show "isBefore s a b = Some (Inr (ia < ib))"
    using h nb na
    by (simp add: isBefore_def isParentOf_chain [OF a] isParentOf_chain [OF b]
        getCommonAncestor_chain [OF a b disj]
        isBefore_loop_chain [OF a ca] isBefore_loop_chain [OF b cb] del: last.simps)
qed

lemma doc3_chains:
  "parentChain doc3 ''T1'' [''E1'', ''R'']" "parentChain doc3 ''T2'' [''E2'', ''R'']"
  by (rule parentChain.up, simp add: read_defs fixture_defs doc3_def,
      rule parentChain.up, simp add: read_defs fixture_defs doc3_def,
      rule parentChain.top, simp add: read_defs fixture_defs doc3_def)+

theorem isBefore_document_order_witness:
  "parentChain doc3 ''T1'' [''E1'', ''R''] \<and> parentChain doc3 ''T2'' [''E2'', ''R'']
   \<and> isBefore doc3 ''T1'' ''R'' = Some (Inr True)
   \<and> isBefore doc3 ''E1'' ''T1'' = Some (Inr False)
   \<and> getIndexWithinParent doc3 ''E1'' = Some (Inr 0)
   \<and> getIndexWithinParent doc3 ''E2'' = Some (Inr 1)
   \<and> isBefore doc3 ''T1'' ''T2'' = Some (Inr True)
   \<and> isBefore doc3 ''T2'' ''T1'' = Some (Inr False)"
proof -
  have i1: "getIndexWithinParent doc3 ''E1'' = Some (Inr 0)"
    and i2: "getIndexWithinParent doc3 ''E2'' = Some (Inr 1)"
    by (simp_all add: read_defs loop_simps fixture_defs doc3_def)
  note t1 = isBefore_document_order
    [where s = doc3 and a = "''T1''" and as = "[''E1'', ''R'']" and b = "''R''"]
  note t2 = isBefore_document_order
    [where s = doc3 and a = "''E1''" and b = "''T1''" and bs = "[''E1'', ''R'']"]
  note t3 = isBefore_document_order
    [where s = doc3 and a = "''T1''" and b = "''T2''" and ?as1.0 = "[''E1'']" and c = "''R''"
       and cs = "[]" and ?bs1.0 = "[''E2'']" and ia = 0 and ib = 1]
  note t4 = isBefore_document_order
    [where s = doc3 and a = "''T2''" and b = "''T1''" and ?as1.0 = "[''E2'']" and c = "''R''"
       and cs = "[]" and ?bs1.0 = "[''E1'']" and ia = 1 and ib = 0]
  from doc3_chains i1 i2 t1 t2 t3 t4 show ?thesis
    by simp
qed

text \<open>
  Claim C4, as the spec has it, fails on two attached nodes of one tree, the element \<open>P\<close>
  under the root and its child \<open>A\<close>: the ancestor \<open>P\<close> is not before \<open>A\<close>, and \<open>A\<close> is
  before \<open>P\<close>.
\<close>

theorem isBefore_ancestor_counterexample:
  "isAttached doc5 ''P'' = Some True
   \<and> isAttached doc5 ''A'' = Some True
   \<and> ''P'' \<noteq> ''A''
   \<and> isParentOf doc5 ''P'' ''A'' = Some (Inr True)
   \<and> isBefore doc5 ''P'' ''A'' = Some (Inr False)
   \<and> isBefore doc5 ''A'' ''P'' = Some (Inr True)"
  by (simp add: isAttached_def isAttached_loop.simps isRootNode_def isElementNode_def
      order_defs order_loops read_defs loop_simps fixture_defs doc5_def)

subsection \<open>Evaluation of the mutators\<close>

lemmas write_defs =
  errorOnReadOnly_def getWritable_def getWritableObject_def newObject_def nodeMapSet_def
  internalMarkNodeAsDirty_def clone_def
  isElementNode_def isTextNode_def isRootNode_def deref_def updNode_def
  markDirty_def setPrev_def setNext_def removeFromParent_def append_def splice_def
  getNodeByKeyOrThrow_def

lemmas selection_defs =
  setPoint_def getPoint_def pointGetNode_def moveSelectionPointToSibling_def
  isPointRemoved_def splice_movePoint_def isPointRemoved_loop.simps

lemmas eval_more = Let_def upt_rec eval_nat_numeral

lemma getWritable_again:
  assumes "getWritable s key = Return w s'"
  shows "w = key \<and> getWritable s' key = Return key s' \<and> nodeMap s' = nodeMap s
       \<and> selection s' = selection s \<and> readOnly s' = readOnly s
       \<and> compositionKey s' = compositionKey s \<and> key \<in> cloneNotNeeded s'
       \<and> (key \<in> dirtyElements s' \<or> key \<in> dirtyLeaves s')"
proof -
  from assms have open_tx: "\<not> readOnly s"
    by (auto simp: getWritable_readOnly)
  from assms open_tx obtain n where n: "nodeMap s key = Some n"
    by (cases "nodeMap s key") (auto simp: getWritable_missing)
  from assms getWritable_open [OF open_tx n]
  have w: "w = key" and s': "s' = (if key \<in> cloneNotNeeded s then internalMarkNodeAsDirty s key n
      else cloned s key n)"
    by auto
  have ro: "\<not> readOnly s'" and nm: "nodeMap s' key = Some n" and cn: "key \<in> cloneNotNeeded s'"
    using open_tx n by (simp_all add: s' cloned_def internalMarkNodeAsDirty_def)
  have again: "getWritable s' key = Return key s'"
    using getWritable_open [OF ro nm] cn
    by (auto simp: s' cloned_def internalMarkNodeAsDirty_def insert_absorb)
  show ?thesis using w again cn open_tx
    by (auto simp: s' cloned_def internalMarkNodeAsDirty_def)
qed

subsection \<open>splice on the scenario of the spec\<close>

text \<open>
  Claim C1. On \<open>P\<close> with children \<open>A, B, C, D\<close>, \<^verbatim>\<open>splice(1, 2, [X, Y, Z])\<close> should
  give the children \<open>A, X, Y, Z, D\<close>, child count 5, and mark \<open>A\<close>, \<open>D\<close> and the inserted
  nodes dirty. The code returns with the children \<open>A, X, Y, Z\<close> and child count 4: the
  lookups \<^verbatim>\<open>getChildAtIndex(3)\<close> and \<^verbatim>\<open>getChildAtIndex(1)\<close> answer \<^verbatim>\<open>null\<close>, so nothing is
  collected for removal, the inserted run becomes the tail of the list, and \<open>D\<close> is
  neither linked after \<open>Z\<close> nor marked dirty (it still names \<open>P\<close> as its parent).
\<close>

theorem splice_replace_loses_tail:
  "(case splice inertCollaborators doc4 ''P'' 1 2 [''X'', ''Y'', ''Z''] of
      Some (Return r s') \<Rightarrow>
        getChildrenKeys s' ''P'' = Some (Inr [''A'', ''X'', ''Y'', ''Z''])
        \<and> getChildrenSize s' ''P'' = Inr 4
        \<and> getLastChild s' ''P'' = Inr (Some ''Z'')
        \<and> ''A'' \<in> dirtyLeaves s' \<and> ''X'' \<in> dirtyLeaves s' \<and> ''Y'' \<in> dirtyLeaves s'
        \<and> ''Z'' \<in> dirtyLeaves s'
        \<and> ''D'' \<notin> dirtyLeaves s' \<and> ''D'' \<notin> dirtyElements s'
        \<and> getParent s' ''D'' = Inr (Some ''P'')
    | _ \<Rightarrow> False)"
  by (simp add: write_defs read_defs loop_simps fixture_defs doc4_def eval_more)

subsection \<open>Structural integrity\<close>

lemma structuralIntegrity_counts:
  "structuralIntegrity s e \<Longrightarrow> getChildrenKeys s e = Some (Inr keys) \<Longrightarrow>
   getChildrenSize s e = Inr (int (length keys))"
  by (auto simp: structuralIntegrity_def read_defs split: option.splits)

lemma doc5_integrity: "structuralIntegrity doc5 ''P''"
  by (simp add: structuralIntegrity_def walkPrev.simps read_defs loop_simps fixture_defs doc5_def)

lemma doc5_splice_append:
  "(case splice inertCollaborators doc5 ''P'' 0 1 [] of
        Some (Return _ s1) \<Rightarrow>
          getChildrenKeys s1 ''P'' = Some (Inr [''A'', ''B''])
          \<and> getParent s1 ''A'' = Inr None
          \<and> (case append s1 ''P'' [''A''] of
               Some (Return _ s2) \<Rightarrow>
                 getChildrenKeys s2 ''P'' = Some (Inr [''A''])
                 \<and> getChildrenSize s2 ''P'' = Inr 3
             | _ \<Rightarrow> False)
      | _ \<Rightarrow> False)"
  by (simp add: write_defs read_defs loop_simps selection_defs fixture_defs doc5_def eval_more)

text \<open>
  Claim C3. Every element keeps the structural integrity of its child list after any
  sequence of mutations. On the document \<open>doc5\<close>, whose element \<open>P\<close> has it, deleting
  the first child with \<^verbatim>\<open>splice(0, 1, [])\<close> clears the parent of \<open>A\<close> but never unlinks
  \<open>A\<close> from the list (the relinking only runs when something is inserted); appending
  \<open>A\<close> to \<open>P\<close> again then leaves \<open>P\<close> with child count 3 and a walk from \<^verbatim>\<open>firstChild\<close>
  that visits one node.
\<close>

theorem splice_then_append_breaks_child_list:
  "structuralIntegrity doc5 ''P''
   \<and> (case splice inertCollaborators doc5 ''P'' 0 1 [] of
        Some (Return _ s1) \<Rightarrow>
          getChildrenKeys s1 ''P'' = Some (Inr [''A'', ''B''])
          \<and> getParent s1 ''A'' = Inr None
          \<and> (case append s1 ''P'' [''A''] of
               Some (Return _ s2) \<Rightarrow>
                 getChildrenKeys s2 ''P'' = Some (Inr [''A''])
                 \<and> getChildrenSize s2 ''P'' = Inr 3
                 \<and> \<not> structuralIntegrity s2 ''P''
             | _ \<Rightarrow> False)
      | _ \<Rightarrow> False)"
  using doc5_integrity doc5_splice_append
  by (auto split: option.splits outcome.splits dest: structuralIntegrity_counts)

subsection \<open>Self-append\<close>

text \<open>
  Claim C5, as the code has it. In an open transaction, \<^verbatim>\<open>append\<close> of an element to
  itself throws the invariant error "append: attemtping to append self"; the node map
  (so every field of \<open>P\<close>) and the selection are as before, but \<open>P\<close> has been made
  writable first: it is in \<^verbatim>\<open>_cloneNotNeeded\<close> and marked dirty.
\<close>

theorem append_self_fails:
  assumes "\<not> readOnly s" and "nodeMap s p = Some n"
  shows "append s p [p]
           = Some (Throw (Invariant ''append: attemtping to append self'') (stateOf (getWritable s p)))
       \<and> nodeMap (stateOf (getWritable s p)) = nodeMap s
       \<and> selection (stateOf (getWritable s p)) = selection s
       \<and> p \<in> cloneNotNeeded (stateOf (getWritable s p))
       \<and> (p \<in> dirtyElements (stateOf (getWritable s p)) \<or> p \<in> dirtyLeaves (stateOf (getWritable s p)))"
proof -
  obtain s' where g: "getWritable s p = Return p s'"
    using getWritable_open [OF assms] by (simp add: cloned_def)
  note a = getWritable_again [OF g]
  from assms(1) have "append s p [p] = Some (Throw (Invariant ''append: attemtping to append self'') s')"
    using g a by (simp add: append_def errorOnReadOnly_def upt_rec)
  with a g show ?thesis by simp
qed

theorem append_self_fails_witness:
  "\<not> readOnly doc2 \<and> nodeMap doc2 ''P'' \<noteq> None
   \<and> append doc2 ''P'' [''P'']
       = Some (Throw (Invariant ''append: attemtping to append self'') (stateOf (getWritable doc2 ''P'')))
   \<and> nodeMap (stateOf (getWritable doc2 ''P'')) = nodeMap doc2
   \<and> ''P'' \<in> dirtyElements (stateOf (getWritable doc2 ''P''))"
proof -
  have ro: "\<not> readOnly doc2" by (simp add: fixture_defs)
  obtain n where n: "nodeMap doc2 ''P'' = Some n" by (simp add: fixture_defs)
  have d: "''P'' \<in> dirtyElements (stateOf (getWritable doc2 ''P''))"
    by (simp add: write_defs read_defs fixture_defs Let_def)
  from append_self_fails [OF ro n] ro n d show ?thesis by simp
qed

text \<open>
  Claim C5, as the spec has it, fails on \<open>doc2\<close>: \<open>P\<close> is not dirty before the call and
  is dirty after the failed call.
\<close>

theorem append_self_marks_dirty_counterexample:
  "''P'' \<notin> dirtyElements doc2 \<and> ''P'' \<notin> dirtyLeaves doc2
   \<and> ''P'' \<in> dirtyElements (finalState (append doc2 ''P'' [''P'']))"
  by (simp add: write_defs read_defs fixture_defs eval_more)

subsection \<open>Selection repair in splice\<close>

text \<open>
  Claim C9. A selection point on a deleted node moves to a surviving sibling or to the
  parent. On \<open>doc5\<close> the caret is in \<open>A\<close>; \<^verbatim>\<open>splice(0, 1, [])\<close> on \<open>P\<close> deletes \<open>A\<close>. The
  node before the range is looked up with \<^verbatim>\<open>getChildAtIndex(-1)\<close>, which answers \<open>A\<close>
  itself, so both points are moved to the end of \<open>A\<close>: they stay on the node that has
  just lost its parent and is no longer attached, while the surviving sibling \<open>B\<close> is.
\<close>

theorem splice_leaves_point_on_removed_node:
  "(case selection doc5 of Some sel \<Rightarrow> p_key (anchor sel) = ''A'' \<and> p_key (focus sel) = ''A'' | None \<Rightarrow> False)
   \<and> isAttached doc5 ''A'' = Some True
   \<and> (case splice inertCollaborators doc5 ''P'' 0 1 [] of
        Some (Return _ s1) \<Rightarrow>
          (case selection s1 of
             Some sel \<Rightarrow> p_key (anchor sel) = ''A'' \<and> p_key (focus sel) = ''A''
           | None \<Rightarrow> False)
          \<and> getParent s1 ''A'' = Inr None
          \<and> isAttached s1 ''A'' = Some False
          \<and> isAttached s1 ''B'' = Some True
      | _ \<Rightarrow> False)"
  by (simp add: isAttached_def isAttached_loop.simps write_defs read_defs loop_simps
        selection_defs fixture_defs doc5_def eval_more)

subsection \<open>Mutation outside a transaction\<close>

text \<open>
  Claim C7. With no open transaction every mutating operation of the node graph fails
  with \<open>ReadOnlyViolation\<close> and leaves the state as it was.
\<close>

theorem mutators_fail_when_read_only:
  assumes "readOnly s"
  shows "append s this nodes = Some (Throw ReadOnlyViolation s)
       \<and> splice c s this start deleteCount nodes = Some (Throw ReadOnlyViolation s)
       \<and> clear c s this = Some (Throw ReadOnlyViolation s)
       \<and> remove c s this preserveEmptyParent = Some (Throw ReadOnlyViolation s)
       \<and> removeNode c s this restoreSelection preserveEmptyParent = Some (Throw ReadOnlyViolation s)
       \<and> replace c s this other = Some (Throw ReadOnlyViolation s)
       \<and> insertBefore c s this other = Some (Throw ReadOnlyViolation s)
       \<and> insertAfter c s this other = Some (Throw ReadOnlyViolation s)
       \<and> select c s this anchorOffset focusOffset = Some (Throw ReadOnlyViolation s)
       \<and> selectNext c s this anchorOffset focusOffset = Some (Throw ReadOnlyViolation s)
       \<and> setFormat c s this type = Some (Throw ReadOnlyViolation s)
       \<and> setIndent s this indentLevel = Some (Throw ReadOnlyViolation s)
       \<and> setDirection s this direction = Some (Throw ReadOnlyViolation s)
       \<and> markDirty s this = Some (Throw ReadOnlyViolation s)
       \<and> setPrev s this sibling = Some (Throw ReadOnlyViolation s)
       \<and> setNext s this sibling = Some (Throw ReadOnlyViolation s)
       \<and> getWritable s this = Throw ReadOnlyViolation s"
proof -
  from assms have e: "errorOnReadOnly s = Throw ReadOnlyViolation s"
    by (simp add: errorOnReadOnly_def)
  have w: "getWritable s this = Throw ReadOnlyViolation s"
    using assms by (rule getWritable_readOnly)
  have "removeNode c s this restoreSelection preserveEmptyParent = Some (Throw ReadOnlyViolation s)"
    unfolding removeNode_def by (subst removeNode_rec.simps) (simp add: e)
  moreover have "append s this nodes = Some (Throw ReadOnlyViolation s)"
    by (simp add: append_def e)
  moreover have "splice c s this start deleteCount nodes = Some (Throw ReadOnlyViolation s)"
    by (simp add: splice_def e)
  moreover have "clear c s this = Some (Throw ReadOnlyViolation s)"
    by (simp add: clear_def e)
  moreover have "remove c s this preserveEmptyParent = Some (Throw ReadOnlyViolation s)"
    by (simp add: remove_def e)
  moreover have "replace c s this other = Some (Throw ReadOnlyViolation s)"
    by (simp add: replace_def e)
  moreover have "insertBefore c s this other = Some (Throw ReadOnlyViolation s)"
    by (simp add: insertBefore_def e)
  moreover have "insertAfter c s this other = Some (Throw ReadOnlyViolation s)"
    by (simp add: insertAfter_def e)
  moreover have "select c s this anchorOffset focusOffset = Some (Throw ReadOnlyViolation s)"
    by (simp add: select_def e)
  moreover have "selectNext c s this anchorOffset focusOffset = Some (Throw ReadOnlyViolation s)"
    by (simp add: selectNext_def e)
  moreover have "setFormat c s this type = Some (Throw ReadOnlyViolation s)"
    by (simp add: setFormat_def e)
  moreover have "setIndent s this indentLevel = Some (Throw ReadOnlyViolation s)"
    by (simp add: setIndent_def e)
  moreover have "setDirection s this direction = Some (Throw ReadOnlyViolation s)"
    by (simp add: setDirection_def e)
  moreover have "markDirty s this = Some (Throw ReadOnlyViolation s)"
    by (simp add: markDirty_def w)
  moreover have "setPrev s this sibling = Some (Throw ReadOnlyViolation s)"
    by (simp add: setPrev_def w)
  moreover have "setNext s this sibling = Some (Throw ReadOnlyViolation s)"
    by (simp add: setNext_def w)
  ultimately show ?thesis using w by simp
qed

theorem mutators_fail_when_read_only_witness:
  "readOnly (doc2\<lparr>readOnly := True\<rparr>)
   \<and> append (doc2\<lparr>readOnly := True\<rparr>) ''P'' [''B''] = Some (Throw ReadOnlyViolation (doc2\<lparr>readOnly := True\<rparr>))
   \<and> splice inertCollaborators (doc2\<lparr>readOnly := True\<rparr>) ''P'' 0 1 []
        = Some (Throw ReadOnlyViolation (doc2\<lparr>readOnly := True\<rparr>))
   \<and> remove inertCollaborators (doc2\<lparr>readOnly := True\<rparr>) ''A'' False
        = Some (Throw ReadOnlyViolation (doc2\<lparr>readOnly := True\<rparr>))
   \<and> markDirty (doc2\<lparr>readOnly := True\<rparr>) ''A'' = Some (Throw ReadOnlyViolation (doc2\<lparr>readOnly := True\<rparr>))"
proof -
  have r: "readOnly (doc2\<lparr>readOnly := True\<rparr>)" by simp
  from mutators_fail_when_read_only [OF r] r show ?thesis by simp
qed

subsection \<open>Removing a detached node\<close>

text \<open>
  Claim C10. In an open transaction, removing a node of the node map that has no parent
  returns without an error and changes nothing: not the node, not the node map, not the
  selection, nor any other part of the state.
\<close>

theorem remove_detached_is_noop:
  assumes "\<not> readOnly s" and "nodeMap s n = Some node" and "n_parent node = None"
  shows "removeNode c s n restoreSelection preserveEmptyParent = Some (Return () s)
       \<and> remove c s n preserveEmptyParent = Some (Return () s)"
proof -
  from assms have e: "errorOnReadOnly s = Return () s"
    by (simp add: errorOnReadOnly_def)
  from assms have p: "getParent s n = Inr None"
    by (simp add: read_defs)
  have "removeNode c s n r p = Some (Return () s)" for r p
    unfolding removeNode_def by (subst removeNode_rec.simps) (simp add: e p)
  then show ?thesis by (simp add: remove_def e)
qed

theorem remove_detached_is_noop_witness:
  "\<not> readOnly doc4 \<and> nodeMap doc4 ''X'' = Some (newNode TextClass)
   \<and> n_parent (newNode TextClass) = None
   \<and> removeNode inertCollaborators doc4 ''X'' True False = Some (Return () doc4)
   \<and> remove inertCollaborators doc4 ''X'' False = Some (Return () doc4)"
proof -
  have a: "\<not> readOnly doc4" and b: "nodeMap doc4 ''X'' = Some (newNode TextClass)"
    and c: "n_parent (newNode TextClass) = None"
    by (simp_all add: doc4_def fixture_defs)
  from remove_detached_is_noop [OF a b c] a b c show ?thesis by simp
qed

subsection \<open>Removal and the cleanup of empty parents\<close>

lemma getWritable_ok:
  assumes "\<not> readOnly t" and "nodeMap t k = Some x"
  shows "\<exists>t'. getWritable t k = Return k t' \<and> nodeMap t' = nodeMap t
          \<and> readOnly t' = readOnly t \<and> selection t' = selection t"
  using getWritable_open [OF assms] by (auto simp: cloned_def internalMarkNodeAsDirty_def)

lemma setNext_ok:
  assumes "\<not> readOnly t" and "nodeMap t k = Some x"
  shows "\<exists>t'. setNext t k v = Some (Return () t') \<and> nodeMap t' = (nodeMap t)(k \<mapsto> x\<lparr>n_next := v\<rparr>)
          \<and> readOnly t' = readOnly t \<and> selection t' = selection t"
proof -
  from getWritable_ok [OF assms] obtain t' where
    "getWritable t k = Return k t'" "nodeMap t' = nodeMap t" "readOnly t' = readOnly t"
    "selection t' = selection t" by blast
  with assms(2) show ?thesis
    by (simp add: setNext_def updNode_def deref_def)
qed

lemma setPrev_ok:
  assumes "\<not> readOnly t" and "nodeMap t k = Some x"
  shows "\<exists>t'. setPrev t k v = Some (Return () t') \<and> nodeMap t' = (nodeMap t)(k \<mapsto> x\<lparr>n_prev := v\<rparr>)
          \<and> readOnly t' = readOnly t \<and> selection t' = selection t"
proof -
  from getWritable_ok [OF assms] obtain t' where
    "getWritable t k = Return k t'" "nodeMap t' = nodeMap t" "readOnly t' = readOnly t"
    "selection t' = selection t" by blast
  with assms(2) show ?thesis
    by (simp add: setPrev_def updNode_def deref_def)
qed

lemma updNode_simps [simp]:
  "nodeMap (updNode t k f) = (nodeMap t)(k \<mapsto> f (the (nodeMap t k)))"
  "readOnly (updNode t k f) = readOnly t"
  "selection (updNode t k f) = selection t"
  by (simp_all add: updNode_def deref_def)

lemma nodeRef_Some: "nodeRef t q = Some r \<Longrightarrow> r = q \<and> nodeMap t q \<noteq> None"
  by (auto simp: nodeRef_def getNodeByKey_def split: option.splits)

lemma resolved_exists:
  "r = (case link of None \<Rightarrow> None | Some q \<Rightarrow> nodeRef t q) \<Longrightarrow> r = Some k \<Longrightarrow>
   \<exists>y. nodeMap t k = Some y"
  by (cases link) (auto simp: nodeRef_def getNodeByKey_def split: option.splits)

lemma removeFromParent_ok:
  assumes ro: "\<not> readOnly t" and n: "nodeMap t n = Some nn" and p: "n_parent nn = Some p"
    and pn: "nodeMap t p = Some pn"
    and pr: "pr = (case n_prev nn of None \<Rightarrow> None | Some q \<Rightarrow> nodeRef t q)"
    and nx: "nx = (case n_next nn of None \<Rightarrow> None | Some q \<Rightarrow> nodeRef t q)"
  shows "\<exists>t1. removeFromParent t n = Some (Return () t1)
          \<and> nodeMap t1 = (\<lambda>k. map_option (detached n p pr nx k) (nodeMap t k))
          \<and> readOnly t1 = readOnly t \<and> selection t1 = selection t"
proof -
  have gp: "getParent t n = Inr (Some p)"
    using n p pn by (simp add: read_defs)
  have gpr: "getPreviousSibling t n = Inr pr" and gnx: "getNextSibling t n = Inr nx"
    using n pr nx by (simp_all add: read_defs split: option.splits)
  from getWritable_ok [OF ro pn] obtain ta where
    ta: "getWritable t p = Return p ta" "nodeMap ta = nodeMap t" "readOnly ta = readOnly t"
      "selection ta = selection t" by blast
  \<comment> \<open>first link\<close>
  have "\<exists>tb. (case pr of
                None \<Rightarrow> Some (Return () (updNode ta p (\<lambda>n. n\<lparr>n_first := nx\<rparr>)))
              | Some prev \<Rightarrow> setNext ta prev nx) = Some (Return () tb)
          \<and> nodeMap tb = (case pr of None \<Rightarrow> (nodeMap t)(p \<mapsto> pn\<lparr>n_first := nx\<rparr>)
                           | Some q \<Rightarrow> (nodeMap t)(q \<mapsto> (the (nodeMap t q))\<lparr>n_next := nx\<rparr>))
          \<and> readOnly tb = readOnly t \<and> selection tb = selection t"
  proof (cases pr)
    case None
    then show ?thesis using ta pn by simp
  next
    case (Some q)
    with resolved_exists [OF pr] obtain qn where qn: "nodeMap ta q = Some qn"
      using ta by auto
    from ro ta have "\<not> readOnly ta" by simp
    from setNext_ok [OF this qn, of nx] Some ta qn show ?thesis by auto
  qed
  then obtain tb where tb: "(case pr of
                None \<Rightarrow> Some (Return () (updNode ta p (\<lambda>n. n\<lparr>n_first := nx\<rparr>)))
              | Some prev \<Rightarrow> setNext ta prev nx) = Some (Return () tb)"
      "nodeMap tb = (case pr of None \<Rightarrow> (nodeMap t)(p \<mapsto> pn\<lparr>n_first := nx\<rparr>)
                           | Some q \<Rightarrow> (nodeMap t)(q \<mapsto> (the (nodeMap t q))\<lparr>n_next := nx\<rparr>))"
      "readOnly tb = readOnly t" "selection tb = selection t" by blast
  have domb: "dom (nodeMap tb) = dom (nodeMap t)"
    using tb(2) pn resolved_exists [OF pr] by (cases pr) auto
  \<comment> \<open>second link\<close>
  have "\<exists>tc. (case nx of
                None \<Rightarrow> Some (Return () (updNode tb p (\<lambda>n. n\<lparr>n_last := pr\<rparr>)))
              | Some next \<Rightarrow> setPrev tb next pr) = Some (Return () tc)
          \<and> nodeMap tc = (case nx of None \<Rightarrow> (nodeMap tb)(p \<mapsto> (the (nodeMap tb p))\<lparr>n_last := pr\<rparr>)
                           | Some q \<Rightarrow> (nodeMap tb)(q \<mapsto> (the (nodeMap tb q))\<lparr>n_prev := pr\<rparr>))
          \<and> readOnly tc = readOnly t \<and> selection tc = selection t"
  proof (cases nx)
    case None
    then show ?thesis using tb by simp
  next
    case (Some q)
    with resolved_exists [OF nx] have "q \<in> dom (nodeMap t)" by auto
    with domb obtain qn where qn: "nodeMap tb q = Some qn" by auto
    from ro tb have "\<not> readOnly tb" by simp
    from setPrev_ok [OF this qn, of pr] Some tb qn show ?thesis by auto
  qed
  then obtain tc where tc: "(case nx of
                None \<Rightarrow> Some (Return () (updNode tb p (\<lambda>n. n\<lparr>n_last := pr\<rparr>)))
              | Some next \<Rightarrow> setPrev tb next pr) = Some (Return () tc)"
      "nodeMap tc = (case nx of None \<Rightarrow> (nodeMap tb)(p \<mapsto> (the (nodeMap tb p))\<lparr>n_last := pr\<rparr>)
                           | Some q \<Rightarrow> (nodeMap tb)(q \<mapsto> (the (nodeMap tb q))\<lparr>n_prev := pr\<rparr>))"
      "readOnly tc = readOnly t" "selection tc = selection t" by blast
  have domc: "dom (nodeMap tc) = dom (nodeMap t)"
    using tc(2) domb pn resolved_exists [OF nx] by (cases nx) auto
  let ?td = "updNode tc p (\<lambda>n. n\<lparr>n_size := n_size n - 1\<rparr>)"
  have domd: "dom (nodeMap ?td) = dom (nodeMap t)"
    using domc pn by auto
  with n obtain nd where nd: "nodeMap ?td n = Some nd" by blast
  have rod: "\<not> readOnly ?td" using ro tc by simp
  from getWritable_ok [OF rod nd] obtain te where
    te: "getWritable ?td n = Return n te" "nodeMap te = nodeMap ?td" "readOnly te = readOnly ?td"
      "selection te = selection ?td" by blast
  let ?t1 = "updNode te n (\<lambda>n. n\<lparr>n_parent := None, n_prev := None, n_next := None\<rparr>)"
  have run: "removeFromParent t n = Some (Return () ?t1)"
    by (simp add: removeFromParent_def gp gpr gnx ta(1) tb(1) tc(1) te(1))
  have map: "nodeMap ?t1 = (\<lambda>k. map_option (detached n p pr nx k) (nodeMap t k))"
  proof
    fix k
    show "nodeMap ?t1 k = map_option (detached n p pr nx k) (nodeMap t k)"
      using n pn resolved_exists [OF pr] resolved_exists [OF nx]
      by (cases "nodeMap t k"; cases pr; cases nx)
         (auto simp: te(2) tc(2) tb(2) detached_def)
  qed
  from run map te tc show ?thesis by simp
qed


lemma getIndexWithinParent_loop_mono:
  assumes eq: "\<And>k. getNextSibling s' k = getNextSibling s k"
    and run: "getIndexWithinParent_loop s ki nxt = Some r"
  shows "getIndexWithinParent_loop s' ki nxt = Some r"
proof -
  have "s = s \<longrightarrow> getIndexWithinParent_loop s' ki nxt = Some r"
  proof (rule getIndexWithinParent_loop.raw_induct
      [where P = "\<lambda>s0 ki nxt r. s0 = s \<longrightarrow> getIndexWithinParent_loop s' ki nxt = Some r",
        OF _ run])
    fix loop s0 ki nxt r
    assume IH: "\<And>s0 ki nxt y. loop s0 ki nxt = Some y \<Longrightarrow>
                  s0 = s \<longrightarrow> getIndexWithinParent_loop s' ki nxt = Some y"
      and body: "(case nxt of None \<Rightarrow> Some (Inr (- 1))
          | Some k \<Rightarrow>
              if fst ki = k then Some (Inr (snd ki))
              else case getNextSibling s0 k of Inl e \<Rightarrow> Some (Inl e)
                   | Inr next' \<Rightarrow> loop s0 (fst ki, snd ki + 1) next') = Some r"
    show "s0 = s \<longrightarrow> getIndexWithinParent_loop s' ki nxt = Some r"
    proof
      assume "s0 = s"
      with body IH show "getIndexWithinParent_loop s' ki nxt = Some r"
        by (subst getIndexWithinParent_loop.simps)
           (auto simp: eq split: option.splits if_splits sum.splits)
    qed
  qed
  then show ?thesis by simp
qed

lemma getIndexWithinParent_loop_cong:
  assumes "\<And>k. getNextSibling s' k = getNextSibling s k"
  shows "getIndexWithinParent_loop s' ki next = getIndexWithinParent_loop s ki next"
proof (cases "getIndexWithinParent_loop s ki next")
  case None
  show ?thesis
  proof (cases "getIndexWithinParent_loop s' ki next")
    case None
    with \<open>getIndexWithinParent_loop s ki next = None\<close> show ?thesis by simp
  next
    case (Some r)
    from getIndexWithinParent_loop_mono [of s s', OF _ Some] assms None show ?thesis by simp
  qed
next
  case (Some r)
  from getIndexWithinParent_loop_mono [of s' s, OF _ Some] assms Some show ?thesis by simp
qed

lemma getIndexWithinParent_cong:
  assumes "\<And>k. getNextSibling s' k = getNextSibling s k"
    and "getParent s' n = getParent s n"
    and "\<And>p. getParent s n = Inr (Some p) \<Longrightarrow> getFirstChild s' p = getFirstChild s p"
  shows "getIndexWithinParent s' n = getIndexWithinParent s n"
  using assms(2,3)
  by (auto simp: getIndexWithinParent_def getIndexWithinParent_loop_cong [OF assms(1)]
      split: sum.splits option.splits)

lemma reads_same_map:
  assumes "nodeMap s' = nodeMap s"
  shows "getParent s' = getParent s" "getNextSibling s' = getNextSibling s"
    "getPreviousSibling s' = getPreviousSibling s" "getFirstChild s' = getFirstChild s"
    "getLastChild s' = getLastChild s" "getChildrenSize s' = getChildrenSize s"
    "isEmpty s' = isEmpty s" "deref s' = deref s" "nodeRef s' = nodeRef s"
    "getIndexWithinParent s' = getIndexWithinParent s"
proof -
  have r: "nodeRef s' = nodeRef s"
    using assms by (simp add: fun_eq_iff nodeRef_def getNodeByKey_def)
  show a: "getParent s' = getParent s" "getNextSibling s' = getNextSibling s"
    "getPreviousSibling s' = getPreviousSibling s" "getFirstChild s' = getFirstChild s"
    "getLastChild s' = getLastChild s" "getChildrenSize s' = getChildrenSize s"
    "isEmpty s' = isEmpty s" "deref s' = deref s" "nodeRef s' = nodeRef s"
    using assms r
    by (auto simp: fun_eq_iff getParent_def getNextSibling_def getPreviousSibling_def
          getFirstChild_def getLastChild_def getChildrenSize_def isEmpty_def getLatest_def
          getNodeByKey_def deref_def split: option.splits sum.splits)
  show "getIndexWithinParent s' = getIndexWithinParent s"
    by (rule ext, rule getIndexWithinParent_cong) (simp_all add: a)
qed

lemma linked_facts:
  assumes "linked s n p"
  obtains nn pn i where "nodeMap s n = Some nn" "n_parent nn = Some p" "nodeMap s p = Some pn"
    "getParent s n = Inr (Some p)" "getIndexWithinParent s n = Some (Inr i)" "i \<noteq> - 1"
proof -
  from assms have gp: "getParent s n = Inr (Some p)"
    and ix: "(case getIndexWithinParent s n of Some (Inr i) \<Rightarrow> i \<noteq> - 1 | _ \<Rightarrow> False)"
    by (simp_all add: linked_def)
  from gp obtain nn where nn: "nodeMap s n = Some nn" "n_parent nn = Some p"
    by (auto simp: read_defs split: option.splits)
  from gp nn obtain pn where pn: "nodeMap s p = Some pn"
    by (auto simp: read_defs split: option.splits)
  from ix obtain i where "getIndexWithinParent s n = Some (Inr i)" "i \<noteq> - 1"
    by (auto split: option.splits sum.splits)
  with nn pn gp show ?thesis by (rule that)
qed

lemma movePoint_ok:
  assumes idx: "getIndexWithinParent s n = Some (Inr i)" and n: "nodeMap s n = Some nn"
  shows "\<exists>b x. removeNode_movePoint s pt n p = Some (Return b (s\<lparr>selection := x\<rparr>))
           \<and> (x \<noteq> None \<longleftrightarrow> selection s \<noteq> None)"
proof (cases "selection s")
  case None
  then have "removeNode_movePoint s pt n p = Some (Return False (s\<lparr>selection := None\<rparr>))"
    by (simp add: removeNode_movePoint_def)
  with None show ?thesis by blast
next
  case (Some sel)
  show ?thesis
  proof (cases "p_key (getPoint pt sel) = n")
    case False
    with Some have "removeNode_movePoint s pt n p = Some (Return False (s\<lparr>selection := Some sel\<rparr>))"
      by (simp add: removeNode_movePoint_def)
    then show ?thesis using Some by blast
  next
    case True
    define pr where "pr = (case n_prev nn of None \<Rightarrow> None | Some q \<Rightarrow> nodeRef s q)"
    define nx where "nx = (case n_next nn of None \<Rightarrow> None | Some q \<Rightarrow> nodeRef s q)"
    have sib: "getPreviousSibling s n = Inr pr" "getNextSibling s n = Inr nx"
      using n by (simp_all add: pr_def nx_def getPreviousSibling_def getNextSibling_def
                    getLatest_def getNodeByKey_def split: option.splits)
    have "\<exists>x. moveSelectionPointToSibling s pt n p pr nx = Some (Return () (s\<lparr>selection := x\<rparr>))
            \<and> x \<noteq> None"
      using Some idx
      by (cases pr; cases nx)
         (auto simp: moveSelectionPointToSibling_def setPoint_def Let_def)
    then obtain x where "moveSelectionPointToSibling s pt n p pr nx = Some (Return () (s\<lparr>selection := x\<rparr>))"
      "x \<noteq> None" by blast
    with Some True sib have "removeNode_movePoint s pt n p = Some (Return True (s\<lparr>selection := x\<rparr>))"
      by (simp add: removeNode_movePoint_def)
    with \<open>x \<noteq> None\<close> Some show ?thesis by blast
  qed
qed


lemma restoreSelection_ok:
  assumes idx: "getIndexWithinParent s n = Some (Inr i)" and n: "nodeMap s n = Some nn"
  shows "\<exists>b x. removeNode_restoreSelection s n p r
            = Some (Return (selection s \<noteq> None, b) (s\<lparr>selection := x\<rparr>))
           \<and> (x \<noteq> None \<longleftrightarrow> selection s \<noteq> None)"
proof (cases "selection s \<noteq> None \<and> r")
  case False
  then have "removeNode_restoreSelection s n p r
      = Some (Return (selection s \<noteq> None, False) (s\<lparr>selection := selection s\<rparr>))"
    by (auto simp: removeNode_restoreSelection_def)
  then show ?thesis by blast
next
  case True
  from movePoint_ok [OF idx n, of AnchorPoint p] obtain b1 x1 where
    m1: "removeNode_movePoint s AnchorPoint n p = Some (Return b1 (s\<lparr>selection := x1\<rparr>))"
    and x1: "x1 \<noteq> None \<longleftrightarrow> selection s \<noteq> None" by blast
  let ?s1 = "s\<lparr>selection := x1\<rparr>"
  have same: "nodeMap ?s1 = nodeMap s" by simp
  have idx1: "getIndexWithinParent ?s1 n = Some (Inr i)" and n1: "nodeMap ?s1 n = Some nn"
    using idx n by (simp_all add: reads_same_map(10) [OF same])
  from movePoint_ok [OF idx1 n1, of FocusPoint p] obtain b2 x2 where
    m2: "removeNode_movePoint ?s1 FocusPoint n p = Some (Return b2 (?s1\<lparr>selection := x2\<rparr>))"
    and x2: "x2 \<noteq> None \<longleftrightarrow> selection ?s1 \<noteq> None" by blast
  from True m1 m2 have "removeNode_restoreSelection s n p r
      = Some (Return (selection s \<noteq> None, b1 \<or> b2) (s\<lparr>selection := x2\<rparr>))"
    by (simp add: removeNode_restoreSelection_def)
  moreover from x1 x2 have "x2 \<noteq> None \<longleftrightarrow> selection s \<noteq> None" by simp
  ultimately show ?thesis by blast
qed

lemma shiftSelection_ok:
  assumes "selectionOnly c"
  shows "\<exists>x. removeNode_shiftSelection c s sel r p i = Some (Return () (s\<lparr>selection := x\<rparr>))
           \<and> (selection s \<noteq> None \<longrightarrow> x \<noteq> None) \<and> (fst sel \<or> x = selection s)"
proof (cases "fst sel \<and> r \<and> \<not> snd sel")
  case True
  from assms obtain x where
    "c_updateElementSelection c p i (- 1) s = Some (Return () (s\<lparr>selection := x\<rparr>))"
    "selection s \<noteq> None \<longrightarrow> x \<noteq> None"
    unfolding selectionOnly_def by blast
  with True show ?thesis by (auto simp: removeNode_shiftSelection_def)
next
  case False
  then have "removeNode_shiftSelection c s sel r p i = Some (Return () (s\<lparr>selection := selection s\<rparr>))"
    by (auto simp: removeNode_shiftSelection_def)
  then show ?thesis by blast
qed

lemma removeNode_level:
  assumes ro: "\<not> readOnly s" and so: "selectionOnly c" and lk: "linked s n p"
    and n: "nodeMap s n = Some nn" and pn: "nodeMap s p = Some pn"
    and pr: "pr = (case n_prev nn of None \<Rightarrow> None | Some q \<Rightarrow> nodeRef s q)"
    and nx: "nx = (case n_next nn of None \<Rightarrow> None | Some q \<Rightarrow> nodeRef s q)"
  shows "\<exists>s1. nodeMap s1 = (\<lambda>k. map_option (detached n p pr nx k) (nodeMap s k))
          \<and> readOnly s1 = readOnly s \<and> (selection s1 \<noteq> None \<longleftrightarrow> selection s \<noteq> None)
          \<and> removeNode_rec c s (n, r, pres) =
             bind (if \<not> pres \<and> \<not> isRootNode pn \<and> \<not> n_canBeEmpty pn \<and> n_size pn = 1
                   then removeNode_rec c s1 (p, r, False) else Some (Return () s1))
               (\<lambda>_ s'. if isRootNode (deref s' p)
                       then reading (Some (isEmpty s' p)) s'
                              (\<lambda>empty. if empty then selectEnd c s' p else Some (Return () s'))
                       else Some (Return () s'))"
proof -
  from lk obtain i where gp: "getParent s n = Inr (Some p)"
    and idx: "getIndexWithinParent s n = Some (Inr i)" and i: "i \<noteq> - 1"
    by (rule linked_facts)
  from gp n have par: "n_parent nn = Some p"
    by (auto simp: getParent_def getLatest_def getNodeByKey_def nodeRef_def split: option.splits)
  from ro have e: "errorOnReadOnly s = Return () s" by (simp add: errorOnReadOnly_def)
  \<comment> \<open>selection repair\<close>
  define isR where "isR = (selection s \<noteq> None)"
  from restoreSelection_ok [OF idx n, of p r] obtain b x where
    rs: "removeNode_restoreSelection s n p r = Some (Return (isR, b) (s\<lparr>selection := x\<rparr>))"
    and x: "x \<noteq> None \<longleftrightarrow> selection s \<noteq> None"
    unfolding isR_def by blast
  let ?sa = "s\<lparr>selection := x\<rparr>"
  have sa: "nodeMap ?sa = nodeMap s" "\<not> readOnly ?sa" using ro by simp_all
  have idxa: "getIndexWithinParent ?sa n = Some (Inr i)"
    using idx by (simp add: reads_same_map(10) [OF sa(1)])
  \<comment> \<open>the node is made writable and detached\<close>
  have na: "nodeMap ?sa n = Some nn" using n by simp
  from getWritable_ok [OF sa(2) na] obtain sb where
    sb: "getWritable ?sa n = Return n sb" "nodeMap sb = nodeMap s" "readOnly sb = readOnly s"
      "selection sb = x" by auto
  have rob: "\<not> readOnly sb" and nb: "nodeMap sb n = Some nn" and pb: "nodeMap sb p = Some pn"
    using ro n pn sb by simp_all
  have prb: "pr = (case n_prev nn of None \<Rightarrow> None | Some q \<Rightarrow> nodeRef sb q)"
    and nxb: "nx = (case n_next nn of None \<Rightarrow> None | Some q \<Rightarrow> nodeRef sb q)"
    using pr nx by (simp_all add: reads_same_map(9) [OF sb(2)] split: option.splits)
  from removeFromParent_ok [OF rob nb par pb prb nxb] obtain sc where
    sc: "removeFromParent sb n = Some (Return () sc)"
      "nodeMap sc = (\<lambda>k. map_option (detached n p pr nx k) (nodeMap s k))"
      "readOnly sc = readOnly s" "selection sc = x"
    using sb by auto
  \<comment> \<open>the element selection is shifted\<close>
  from shiftSelection_ok [OF so, of sc "(isR, b)" r p i] obtain y where
    sd: "removeNode_shiftSelection c sc (isR, b) r p i = Some (Return () (sc\<lparr>selection := y\<rparr>))"
    and y: "selection sc \<noteq> None \<longrightarrow> y \<noteq> None" "selection s \<noteq> None \<or> y = selection sc"
    unfolding isR_def by auto
  let ?sd = "sc\<lparr>selection := y\<rparr>"
  have dp: "deref ?sd p = detached n p pr nx p pn"
    using pn by (simp add: deref_def sc(2))
  have cls: "isRootNode (deref ?sd p) = isRootNode pn"
    "n_canBeEmpty (deref ?sd p) = n_canBeEmpty pn"
    by (simp_all add: dp detached_def isRootNode_def)
  have emp: "isEmpty ?sd p = Inr (n_size pn = 1)"
    using pn by (simp add: isEmpty_def getChildrenSize_def getLatest_def getNodeByKey_def
                   sc(2) detached_def)
  have sel: "selection ?sd \<noteq> None \<longleftrightarrow> selection s \<noteq> None"
    using x y sc(4) by auto
  have run: "removeNode_rec c s (n, r, pres) =
             bind (if \<not> pres \<and> \<not> isRootNode pn \<and> \<not> n_canBeEmpty pn \<and> n_size pn = 1
                   then removeNode_rec c ?sd (p, r, False) else Some (Return () ?sd))
               (\<lambda>_ s'. if isRootNode (deref s' p)
                       then reading (Some (isEmpty s' p)) s'
                              (\<lambda>empty. if empty then selectEnd c s' p else Some (Return () s'))
                       else Some (Return () s'))"
    by (subst removeNode_rec.simps)
       (simp add: e gp rs idxa i sb(1) sc(1) sd cls emp)
  from run sc sel show ?thesis
    by (intro exI [of _ ?sd]) simp
qed


lemma cleanupChain_head: "cleanupChain s b (k # ks) kept \<Longrightarrow> k \<notin> set ks \<and> k \<noteq> kept"
  by (cases ks) auto

lemma detached_frame:
  assumes m1: "nodeMap s1 = (\<lambda>k. map_option (detached n p None None k) (nodeMap s k))"
    and oc: "onlyChild s n"
  shows "nodeRef s1 = nodeRef s"
    and "getNextSibling s1 = getNextSibling s"
    and "k \<noteq> n \<Longrightarrow> getParent s1 k = getParent s k"
    and "q \<noteq> p \<Longrightarrow> getFirstChild s1 q = getFirstChild s q"
    and "q \<noteq> p \<Longrightarrow> q \<noteq> n \<Longrightarrow> nodeMap s1 q = nodeMap s q"
    and "onlyChild s1 k = onlyChild s k"
proof -
  show r: "nodeRef s1 = nodeRef s"
    by (auto simp: fun_eq_iff nodeRef_def getNodeByKey_def m1 split: option.splits)
  show "getNextSibling s1 = getNextSibling s"
    using oc
    by (auto simp: fun_eq_iff getNextSibling_def getLatest_def getNodeByKey_def m1 r
          detached_def onlyChild_def split: option.splits)
  show "k \<noteq> n \<Longrightarrow> getParent s1 k = getParent s k"
    by (auto simp: getParent_def getLatest_def getNodeByKey_def m1 r detached_def
          split: option.splits)
  show "q \<noteq> p \<Longrightarrow> getFirstChild s1 q = getFirstChild s q"
    by (auto simp: getFirstChild_def getLatest_def getNodeByKey_def m1 r detached_def
          split: option.splits)
  show "q \<noteq> p \<Longrightarrow> q \<noteq> n \<Longrightarrow> nodeMap s1 q = nodeMap s q"
    by (cases "nodeMap s q") (simp_all add: m1 detached_def)
  show "onlyChild s1 k = onlyChild s k"
    using oc by (cases "nodeMap s k") (auto simp: onlyChild_def m1 detached_def)
qed

lemma linked_frame:
  assumes m1: "nodeMap s1 = (\<lambda>k. map_option (detached n p None None k) (nodeMap s k))"
    and oc: "onlyChild s n" and lk: "linked s k q" and "k \<noteq> n" and "q \<noteq> p"
  shows "linked s1 k q"
proof -
  note f = detached_frame [OF m1 oc]
  from lk have gp: "getParent s k = Inr (Some q)" by (simp add: linked_def)
  have "getIndexWithinParent s1 k = getIndexWithinParent s k"
  proof (rule getIndexWithinParent_cong)
    show "getNextSibling s1 j = getNextSibling s j" for j by (simp add: f(2))
    show "getParent s1 k = getParent s k" using \<open>k \<noteq> n\<close> by (rule f(3))
    show "getFirstChild s1 p' = getFirstChild s p'" if "getParent s k = Inr (Some p')" for p'
      using that gp \<open>q \<noteq> p\<close> by (simp add: f(4))
  qed
  with lk f(3) [OF \<open>k \<noteq> n\<close>] show ?thesis by (simp add: linked_def)
qed

lemma cleanupChain_frame:
  assumes m1: "nodeMap s1 = (\<lambda>k. map_option (detached n p None None k) (nodeMap s k))"
    and oc: "onlyChild s n"
  shows "cleanupChain s b ks kept \<Longrightarrow> n \<notin> set ks \<Longrightarrow> n \<noteq> kept \<Longrightarrow> p \<notin> set (tl ks) \<Longrightarrow>
         p \<noteq> kept \<Longrightarrow> cleanupChain s1 b ks kept"
proof (induction ks arbitrary: b)
  case Nil
  then show ?case by simp
next
  case (Cons k ks)
  note f = detached_frame [OF m1 oc]
  from Cons.prems have kn: "k \<noteq> n" by auto
  show ?case
  proof (cases ks)
    case Nil
    with Cons.prems have lk: "linked s k kept" and "k \<noteq> kept" and st: "stays s b kept"
      and o: "getChildrenSize s kept = Inr 1 \<longrightarrow> onlyChild s k" by auto
    from Cons.prems have eq: "nodeMap s1 kept = nodeMap s kept" by (auto intro: f(5))
    from lk kn Cons.prems have "linked s1 k kept" by (auto intro: linked_frame [OF m1 oc])
    moreover from st eq have "stays s1 b kept" by (simp add: stays_def)
    moreover from eq have "getChildrenSize s1 kept = getChildrenSize s kept"
      by (simp add: getChildrenSize_def getLatest_def getNodeByKey_def)
    ultimately show ?thesis using Nil o \<open>k \<noteq> kept\<close> by (simp add: f(6))
  next
    case (Cons q ks')
    with Cons.prems have lk: "linked s k q" and oc': "onlyChild s k" and "\<not> b" and g: "goes s q"
      and d: "k \<notin> set (q # ks')" "k \<noteq> kept" and rest: "cleanupChain s False (q # ks') kept"
      by auto
    from Cons.prems Cons have qp: "q \<noteq> p" "q \<noteq> n" by auto
    then have eq: "nodeMap s1 q = nodeMap s q" by (auto intro: f(5))
    from lk kn qp have "linked s1 k q" by (auto intro: linked_frame [OF m1 oc])
    moreover from g eq have "goes s1 q" by (simp add: goes_def)
    moreover have "cleanupChain s1 False (q # ks') kept"
      using Cons.IH [of False] rest Cons.prems Cons by auto
    ultimately show ?thesis using Cons oc' \<open>\<not> b\<close> d by (simp add: f(6))
  qed
qed


lemma select_empty:
  assumes ro: "\<not> readOnly t" and so: "selectionOnly c" and k: "nodeMap t k = Some x"
    and sz: "n_size x = 0"
  shows "\<exists>sel. select c t k None None = Some (Return () (t\<lparr>selection := sel\<rparr>))
           \<and> (selection t \<noteq> None \<longrightarrow> sel = Some (caretAt k 0))"
proof (cases "selection t")
  case None
  from so obtain sel where
    "c_internalMakeRangeSelection c k 0 k 0 ElementPoint ElementPoint t
       = Some (Return () (t\<lparr>selection := sel\<rparr>))"
    unfolding selectionOnly_def by blast
  with None ro k sz show ?thesis
    by (auto simp: select_def errorOnReadOnly_def getChildrenSize_def getLatest_def
          getNodeByKey_def)
next
  case (Some rs)
  with ro k sz have "select c t k None None = Some (Return () (t\<lparr>selection := Some (caretAt k 0)\<rparr>))"
    by (simp add: select_def errorOnReadOnly_def getChildrenSize_def getLatest_def
          getNodeByKey_def setPoint_def caretAt_def Let_def)
  with Some show ?thesis by blast
qed

lemma selectEnd_empty:
  assumes k: "nodeMap t k = Some x" and "n_last x = None"
  shows "selectEnd c t k = select c t k None None"
  using assms
  by (simp add: selectEnd_def getLastDescendant_def getLastChild_def getLatest_def
        getNodeByKey_def getLastDescendant_loop.simps)

lemma removeNode_chain:
  assumes so: "selectionOnly c"
  shows "cleanupChain s pres (n # ks) kept \<Longrightarrow> \<not> readOnly s \<Longrightarrow>
    \<exists>s'. removeNode_rec c s (n, r, pres) = Some (Return () s') \<and> removalResult s (n # ks) kept s'"
proof (induction ks arbitrary: s n pres)
  case Nil
  then have lk: "linked s n kept" and nk: "n \<noteq> kept" and st: "stays s pres kept"
    and o: "getChildrenSize s kept = Inr 1 \<longrightarrow> onlyChild s n" by auto
  from lk obtain nn pn where n: "nodeMap s n = Some nn" and par: "n_parent nn = Some kept"
    and pn: "nodeMap s kept = Some pn"
    by (rule linked_facts)
  define pr where "pr = (case n_prev nn of None \<Rightarrow> None | Some q \<Rightarrow> nodeRef s q)"
  define nx where "nx = (case n_next nn of None \<Rightarrow> None | Some q \<Rightarrow> nodeRef s q)"
  from st pn have no: "\<not> (\<not> pres \<and> \<not> isRootNode pn \<and> \<not> n_canBeEmpty pn \<and> n_size pn = 1)"
    by (auto simp: stays_def)
  from removeNode_level [OF Nil.prems(2) so lk n pn pr_def nx_def, of r pres] no
  obtain s1 where m1: "nodeMap s1 = (\<lambda>k. map_option (detached n kept pr nx k) (nodeMap s k))"
    and ro1: "readOnly s1 = readOnly s" and sel1: "selection s1 \<noteq> None \<longleftrightarrow> selection s \<noteq> None"
    and run: "removeNode_rec c s (n, r, pres) =
       (if isRootNode (deref s1 kept)
        then reading (Some (isEmpty s1 kept)) s1
               (\<lambda>empty. if empty then selectEnd c s1 kept else Some (Return () s1))
        else Some (Return () s1))"
    by auto
  have d1: "deref s1 kept = detached n kept pr nx kept pn"
    using pn by (simp add: deref_def m1)
  have base: "removalResult s [n] kept (s1\<lparr>selection := sel\<rparr>)"
    if "selection s \<noteq> None \<longrightarrow> sel \<noteq> None"
      and "rootEmptied s kept \<and> selection s \<noteq> None \<longrightarrow> sel = Some (caretAt kept 0)" for sel
    unfolding removalResult_def
  proof (intro conjI allI)
    fix k
    show "case nodeMap s k of None \<Rightarrow> nodeMap (s1\<lparr>selection := sel\<rparr>) k = None
          | Some x \<Rightarrow>
              (case nodeMap (s1\<lparr>selection := sel\<rparr>) k of None \<Rightarrow> False
               | Some x' \<Rightarrow>
                   n_class x' = n_class x \<and> n_canBeEmpty x' = n_canBeEmpty x
                   \<and> n_parent x' = (if k \<in> set [n] then None else n_parent x)
                   \<and> (k = kept \<longrightarrow> n_size x' = n_size x - 1))"
      by (cases "nodeMap s k") (simp_all add: m1 detached_def)
  qed (use that ro1 in simp_all)
  show ?case
  proof (cases "isRootNode pn \<and> n_size pn = 1")
    case False
    then have "removeNode_rec c s (n, r, pres) = Some (Return () s1)"
      using pn by (auto simp: run d1 detached_def isRootNode_def isEmpty_def getChildrenSize_def
            getLatest_def getNodeByKey_def m1)
    moreover from False pn sel1 have "removalResult s [n] kept (s1\<lparr>selection := selection s1\<rparr>)"
      by (intro base) (auto simp: rootEmptied_def)
    ultimately show ?thesis by auto
  next
    case True
    with o pn have "onlyChild s n"
      by (simp add: getChildrenSize_def getLatest_def getNodeByKey_def)
    with n have "pr = None" "nx = None" by (simp_all add: pr_def nx_def onlyChild_def)
    with True have x1: "nodeMap s1 kept = Some (detached n kept None None kept pn)"
      and l1: "n_last (detached n kept None None kept pn) = None"
      and z1: "n_size (detached n kept None None kept pn) = 0"
      using pn by (simp_all add: m1 detached_def)
    from Nil.prems(2) ro1 have r1: "\<not> readOnly s1" by simp
    from select_empty [OF r1 so x1 z1] obtain sel where
      se: "select c s1 kept None None = Some (Return () (s1\<lparr>selection := sel\<rparr>))"
      and sl: "selection s1 \<noteq> None \<longrightarrow> sel = Some (caretAt kept 0)" by blast
    from True x1 z1 have "removeNode_rec c s (n, r, pres) = selectEnd c s1 kept"
      by (simp add: run deref_def isRootNode_def detached_def isEmpty_def getChildrenSize_def
            getLatest_def getNodeByKey_def)
    with se have "removeNode_rec c s (n, r, pres) = Some (Return () (s1\<lparr>selection := sel\<rparr>))"
      by (simp add: selectEnd_empty [OF x1 l1])
    moreover from sl sel1 have "removalResult s [n] kept (s1\<lparr>selection := sel\<rparr>)"
      by (intro base) auto
    ultimately show ?thesis by blast
  qed
next
  case (Cons p ks)
  then have lk: "linked s n p" and oc: "onlyChild s n" and np: "\<not> pres" and g: "goes s p"
    and d: "n \<notin> set (p # ks)" "n \<noteq> kept" and rest: "cleanupChain s False (p # ks) kept"
    by auto
  from lk obtain nn pn where n: "nodeMap s n = Some nn" and par: "n_parent nn = Some p"
    and pn: "nodeMap s p = Some pn"
    by (rule linked_facts)
  from oc n have pr: "None = (case n_prev nn of None \<Rightarrow> None | Some q \<Rightarrow> nodeRef s q)"
    and nx: "None = (case n_next nn of None \<Rightarrow> None | Some q \<Rightarrow> nodeRef s q)"
    by (simp_all add: onlyChild_def)
  from g pn have yes: "\<not> pres \<and> \<not> isRootNode pn \<and> \<not> n_canBeEmpty pn \<and> n_size pn = 1"
    using np by (simp add: goes_def)
  from removeNode_level [OF Cons.prems(2) so lk n pn pr nx, of r pres] yes
  obtain s1 where m1: "nodeMap s1 = (\<lambda>k. map_option (detached n p None None k) (nodeMap s k))"
    and ro1: "readOnly s1 = readOnly s" and sel1: "selection s1 \<noteq> None \<longleftrightarrow> selection s \<noteq> None"
    and run: "removeNode_rec c s (n, r, pres) =
       bind (removeNode_rec c s1 (p, r, False))
         (\<lambda>_ s'. if isRootNode (deref s' p)
                 then reading (Some (isEmpty s' p)) s'
                        (\<lambda>empty. if empty then selectEnd c s' p else Some (Return () s'))
                 else Some (Return () s'))"
    by auto
  from cleanupChain_head [OF rest] have pk: "p \<notin> set ks" "p \<noteq> kept" by auto
  have "cleanupChain s1 False (p # ks) kept"
    using cleanupChain_frame [OF m1 oc rest] d pk by simp
  moreover from Cons.prems(2) ro1 have "\<not> readOnly s1" by simp
  ultimately obtain s' where
    rec: "removeNode_rec c s1 (p, r, False) = Some (Return () s')"
    and res: "removalResult s1 (p # ks) kept s'"
    using Cons.IH by blast
  from res have all: "\<And>k. case nodeMap s1 k of
                None \<Rightarrow> nodeMap s' k = None
              | Some x \<Rightarrow>
                  (case nodeMap s' k of
                     None \<Rightarrow> False
                   | Some x' \<Rightarrow>
                       n_class x' = n_class x \<and> n_canBeEmpty x' = n_canBeEmpty x
                       \<and> n_parent x' = (if k \<in> set (p # ks) then None else n_parent x)
                       \<and> (k = kept \<longrightarrow> n_size x' = n_size x - 1))"
    by (simp add: removalResult_def)
  from all [of p] pn yes have "\<not> isRootNode (deref s' p)"
    by (auto simp: m1 deref_def isRootNode_def detached_def split: option.splits)
  with run rec have fin: "removeNode_rec c s (n, r, pres) = Some (Return () s')" by simp
  have "removalResult s (n # p # ks) kept s'"
    unfolding removalResult_def
  proof (intro conjI allI)
    show "readOnly s' = readOnly s" using res ro1 by (simp add: removalResult_def)
    show "selection s \<noteq> None \<longrightarrow> selection s' \<noteq> None"
      using res sel1 by (simp add: removalResult_def)
    show "rootEmptied s kept \<and> selection s \<noteq> None \<longrightarrow> selection s' = Some (caretAt kept 0)"
      using res sel1 pk d detached_frame(5) [OF m1 oc, of kept]
      by (simp add: removalResult_def rootEmptied_def)
    fix k
    show "case nodeMap s k of None \<Rightarrow> nodeMap s' k = None
          | Some x \<Rightarrow>
              (case nodeMap s' k of None \<Rightarrow> False
               | Some x' \<Rightarrow>
                   n_class x' = n_class x \<and> n_canBeEmpty x' = n_canBeEmpty x
                   \<and> n_parent x' = (if k \<in> set (n # p # ks) then None else n_parent x)
                   \<and> (k = kept \<longrightarrow> n_size x' = n_size x - 1))"
      using all [of k] pk d
      by (cases "nodeMap s k") (auto simp: m1 detached_def split: option.splits)
  qed
  with fin show ?case by blast
qed


lemma cleanupChain_members:
  "cleanupChain s b ks kept \<Longrightarrow> k \<in> set ks \<Longrightarrow> nodeMap s k \<noteq> None \<and> k \<noteq> kept"
proof (induction ks arbitrary: b)
  case Nil
  then show ?case by simp
next
  case (Cons a ks)
  show ?case
  proof (cases ks)
    case Nil
    with Cons.prems have "linked s a kept" "a \<noteq> kept" "k = a" by auto
    then show ?thesis by (auto elim: linked_facts)
  next
    case (Cons q ks')
    with Cons.prems have lk: "linked s a q" and ak: "a \<noteq> kept"
      and rest: "cleanupChain s False ks kept" by auto
    show ?thesis
    proof (cases "k = a")
      case True
      with lk ak show ?thesis by (auto elim: linked_facts)
    next
      case False
      with Cons.prems have "k \<in> set ks" by simp
      with rest show ?thesis by (rule Cons.IH)
    qed
  qed
qed

text \<open>
  Claim C8. In an open transaction, \<^verbatim>\<open>remove\<close> of an attached node returns; the node and
  the ancestors that thereby become empty (each not the root, not allowed to be empty,
  and, for the first parent, not protected by \<^verbatim>\<open>preserveEmptyParent\<close>) end without a
  parent; every other node, the root included, keeps its parent and its class; the
  first ancestor that stays has one child less; and when that ancestor is the root and
  it has become empty, a range selection ends as the caret at offset 0 of the root.
\<close>

theorem remove_cleans_up_empty_parents:
  assumes "\<not> readOnly s" and "selectionOnly c"
    and "cleanupChain s preserveEmptyParent (n # ks) kept"
  shows "\<exists>s'. remove c s n preserveEmptyParent = Some (Return () s')
          \<and> removalResult s (n # ks) kept s'
          \<and> list_all (\<lambda>k. getParent s' k = Inr None) (n # ks)
          \<and> getParent s' kept = getParent s kept
          \<and> getChildrenSize s' kept = map_sum id (\<lambda>size. size - 1) (getChildrenSize s kept)"
proof -
  from assms(1) have e: "errorOnReadOnly s = Return () s" by (simp add: errorOnReadOnly_def)
  from removeNode_chain [OF assms(2,3,1), of True] obtain s' where
    run: "removeNode_rec c s (n, True, preserveEmptyParent) = Some (Return () s')"
    and res: "removalResult s (n # ks) kept s'" by blast
  from res have all: "\<And>k. case nodeMap s k of
                None \<Rightarrow> nodeMap s' k = None
              | Some x \<Rightarrow>
                  (case nodeMap s' k of
                     None \<Rightarrow> False
                   | Some x' \<Rightarrow>
                       n_class x' = n_class x \<and> n_canBeEmpty x' = n_canBeEmpty x
                       \<and> n_parent x' = (if k \<in> set (n # ks) then None else n_parent x)
                       \<and> (k = kept \<longrightarrow> n_size x' = n_size x - 1))"
    by (simp add: removalResult_def)
  have ref: "nodeRef s' = nodeRef s"
  proof
    fix k show "nodeRef s' k = nodeRef s k"
      using all [of k] by (auto simp: nodeRef_def getNodeByKey_def split: option.splits)
  qed
  have det: "getParent s' k = Inr None" if "k \<in> set (n # ks)" for k
    using all [of k] that cleanupChain_members [OF assms(3) that]
    by (auto simp: getParent_def getLatest_def getNodeByKey_def split: option.splits)
  have "kept \<notin> set (n # ks)"
    using cleanupChain_members [OF assms(3), of kept] by blast
  then have kp: "getParent s' kept = getParent s kept"
    using all [of kept]
    by (auto simp: getParent_def getLatest_def getNodeByKey_def ref split: option.splits)
  have sz: "getChildrenSize s' kept = map_sum id (\<lambda>size. size - 1) (getChildrenSize s kept)"
  proof -
    obtain k where "k \<in> set (n # ks)" "linked s k kept"
      using assms(3)
    proof (induction ks arbitrary: n preserveEmptyParent thesis)
      case Nil
      then show ?case by auto
    next
      case (Cons a ks)
      from Cons.prems(2) have "cleanupChain s False (a # ks) kept" by simp
      from Cons.IH [OF _ this] obtain k where "k \<in> set (a # ks)" "linked s k kept" by blast
      then show ?case by (intro Cons.prems(1) [of k]) auto
    qed
    then obtain pn where "nodeMap s kept = Some pn" by (auto elim: linked_facts)
    with all [of kept] show ?thesis
      by (auto simp: getChildrenSize_def getLatest_def getNodeByKey_def split: option.splits)
  qed
  from run e have "remove c s n preserveEmptyParent = Some (Return () s')"
    by (simp add: remove_def removeNode_def)
  with res det kp sz show ?thesis
    by (auto simp: list_all_iff)
qed

lemma inert_selectionOnly: "selectionOnly inertCollaborators"
proof -
  have "\<exists>sel. Some (Return () s) = Some (Return () (s\<lparr>selection := sel\<rparr>))
          \<and> (selection s \<noteq> None \<longrightarrow> sel \<noteq> None)" for s :: EditorState
    by (rule exI [of _ "selection s"]) simp
  moreover have "\<exists>sel. Some (Return () s) = Some (Return () (s\<lparr>selection := sel\<rparr>))"
    for s :: EditorState
    by (rule exI [of _ "selection s"]) simp
  ultimately show ?thesis
    by (simp add: selectionOnly_def inertCollaborators_def)
qed

lemma doc6_chain: "cleanupChain doc6 False [''T'', ''F'', ''E''] ''root''"
  by (simp add: linked_def onlyChild_def goes_def stays_def isRootNode_def
        read_defs loop_simps fixture_defs doc6_def)

theorem remove_cleans_up_empty_parents_witness:
  "\<not> readOnly doc6 \<and> selectionOnly inertCollaborators
   \<and> cleanupChain doc6 False [''T'', ''F'', ''E''] ''root''
   \<and> returned (remove inertCollaborators doc6 ''T'' False)
   \<and> getParent (finalState (remove inertCollaborators doc6 ''T'' False)) ''T'' = Inr None
   \<and> getParent (finalState (remove inertCollaborators doc6 ''T'' False)) ''F'' = Inr None
   \<and> getParent (finalState (remove inertCollaborators doc6 ''T'' False)) ''E'' = Inr None
   \<and> getParent (finalState (remove inertCollaborators doc6 ''T'' False)) ''root'' = Inr None
   \<and> getChildrenSize (finalState (remove inertCollaborators doc6 ''T'' False)) ''root'' = Inr 0
   \<and> selection (finalState (remove inertCollaborators doc6 ''T'' False))
       = Some (caretAt ''root'' 0)"
proof -
  have ro: "\<not> readOnly doc6" by (simp add: fixture_defs doc6_def)
  have re: "rootEmptied doc6 ''root''" "selection doc6 \<noteq> None"
    "getParent doc6 ''root'' = Inr None" "getChildrenSize doc6 ''root'' = Inr 1"
    by (simp_all add: rootEmptied_def isRootNode_def read_defs fixture_defs doc6_def)
  from remove_cleans_up_empty_parents [OF ro inert_selectionOnly doc6_chain]
  obtain s' where "remove inertCollaborators doc6 ''T'' False = Some (Return () s')"
    "removalResult doc6 [''T'', ''F'', ''E''] ''root'' s'"
    "list_all (\<lambda>k. getParent s' k = Inr None) [''T'', ''F'', ''E'']"
    "getParent s' ''root'' = getParent doc6 ''root''"
    "getChildrenSize s' ''root'' = map_sum id (\<lambda>size. size - 1) (getChildrenSize doc6 ''root'')"
    by blast
  with ro inert_selectionOnly doc6_chain re show ?thesis
    by (simp add: removalResult_def)
qed

end
